theory Spec2Isabelle
  imports Main "HOL-Library.Multiset"
begin

section \<open>Strings and name sanitizing (server.ts, lines 183-184)\<close>

text \<open>
  A JavaScript string is modelled as a \<open>string\<close>: one \<open>char\<close> per UTF-16 code unit. The
  regular expression classes \<open>\w\<close>, \<open>\W\<close> and \<open>\d\<close> (no \<open>u\<close> or \<open>i\<close> flag) are ASCII
  classes, so every code unit outside the 63 listed characters is a \<open>\W\<close> character.
\<close>

definition isDigit :: "char \<Rightarrow> bool" where
  "isDigit c = (c \<in> set ''0123456789'')"

definition isWordChar :: "char \<Rightarrow> bool" where
  "isWordChar c =
     (c \<in> set ''abcdefghijklmnopqrstuvwxyzABCDEFGHIJKLMNOPQRSTUVWXYZ0123456789_'')"

text \<open>
  \<^verbatim>\<open>name.replaceAll(/\W/g, '_').replace(/^\d/, '_$&')\<close>: every non-word character
  becomes an underscore; then, if the result starts with a digit, an underscore is put
  before that digit (\<open>$&\<close> is the matched digit).
\<close>

definition replaceNonWord :: "string \<Rightarrow> string" where
  "replaceNonWord name = map (\<lambda>c. if isWordChar c then c else CHR ''_'') name"

definition prefixLeadingDigit :: "string \<Rightarrow> string" where
  "prefixLeadingDigit s =
     (case s of [] \<Rightarrow> [] | c # cs \<Rightarrow> if isDigit c then CHR ''_'' # c # cs else c # cs)"

definition sanitize :: "string \<Rightarrow> string" where
  "sanitize name = prefixLeadingDigit (replaceNonWord name)"

text \<open>
  \<^verbatim>\<open>s.split('.')\<close>: the pieces between the separators; a string without the separator
  (the empty string too) gives one piece.
\<close>

fun split :: "char \<Rightarrow> string \<Rightarrow> string list" where
  "split sep [] = [[]]"
| "split sep (c # cs) =
     (if c = sep then [] # split sep cs
      else (case split sep cs of [] \<Rightarrow> [[c]] | p # ps \<Rightarrow> (c # p) # ps))"

text \<open>\<^verbatim>\<open>xs.join(sep)\<close> on an array of strings.\<close>

fun join :: "string \<Rightarrow> string list \<Rightarrow> string" where
  "join sep [] = []"
| "join sep [x] = x"
| "join sep (x # y # ys) = x @ sep @ join sep (y # ys)"

text \<open>
  The qualified name of a tool (lines 102-107): the joined name
  \<^verbatim>\<open>`${serverName}.${tool.name}`\<close> is split on dots, the first piece is the namespace,
  the other pieces are sanitized one by one and joined with underscores.
  \<open>prepareTools\<close> (lines 189-197) and \<open>generateInterface\<close> (lines 206-210) compute
  the same two components from the same joined name.
\<close>

definition fullName :: "string \<Rightarrow> string \<Rightarrow> string" where
  "fullName serverName toolName = serverName @ ''.'' @ toolName"

definition namespaceOf :: "string list \<Rightarrow> string" where
  "namespaceOf parts = sanitize (hd parts)"

definition flatToolOf :: "string list \<Rightarrow> string" where
  "flatToolOf parts = join ''_'' (map sanitize (drop 1 parts))"

definition qualify :: "string \<Rightarrow> string" where
  "qualify name =
     (let parts = split CHR ''.'' name in
      if length parts > 1 then namespaceOf parts @ ''.'' @ flatToolOf parts
      else sanitize name)"

definition callableName :: "string \<Rightarrow> string \<Rightarrow> string" where
  "callableName serverName toolName = qualify (fullName serverName toolName)"

section \<open>JavaScript values (the schema type \<open>any\<close>)\<close>

text \<open>
  A tool's \<open>inputSchema\<close> has the TypeScript type \<open>any\<close>: it is whatever JSON value the
  backend sent, or \<open>undefined\<close>. A number is kept as its decimal rendering (the text
  \<open>String(n)\<close> yields), since the program only tests numbers for truthiness and prints
  them; zero renders as \<open>0\<close>. An object is the list of its own properties in
  \<open>Object.entries\<close> order. \<open>Object.prototype\<close> and the other built-in objects are taken
  to be in their initial state, and the call stack to be deep enough for the value.
\<close>

datatype jsval =
    JUndefined
  | JNull
  | JBool bool
  | JNum string
  | JStr string
  | JArr "jsval list"
  | JObj "(string \<times> jsval) list"

datatype error =
    Error string
  | TypeError string
  | SyntaxError string
  | SystemError string
  | McpError string

text \<open>Truthiness, as tested by \<open>!s\<close>, \<open>a ? b : c\<close> and \<open>a || b\<close>.\<close>

fun truthy :: "jsval \<Rightarrow> bool" where
  "truthy JUndefined = False"
| "truthy JNull = False"
| "truthy (JBool b) = b"
| "truthy (JNum r) = (r \<noteq> ''0'' \<and> r \<noteq> ''NaN'')"
| "truthy (JStr s) = (s \<noteq> [])"
| "truthy (JArr vs) = True"
| "truthy (JObj kvs) = True"

text \<open>
  Reading one of the schema properties \<open>enum\<close>, \<open>type\<close>, \<open>items\<close>, \<open>properties\<close>,
  \<open>required\<close> of a truthy value: an object gives its own property, every other value
  gives \<open>undefined\<close> (no prototype defines one of these five names).
\<close>

fun getProp :: "jsval \<Rightarrow> string \<Rightarrow> jsval" where
  "getProp (JObj kvs) k = (case map_of kvs k of Some v \<Rightarrow> v | None \<Rightarrow> JUndefined)"
| "getProp v k = JUndefined"

text \<open>\<open>map\<close> with a callback that may raise: the first error ends the loop.\<close>

fun mapE :: "('a \<Rightarrow> 'e + 'b) \<Rightarrow> 'a list \<Rightarrow> 'e + 'b list" where
  "mapE f [] = Inr []"
| "mapE f (x # xs) =
     (case f x of
        Inl e \<Rightarrow> Inl e
      | Inr y \<Rightarrow> (case mapE f xs of Inl e \<Rightarrow> Inl e | Inr ys \<Rightarrow> Inr (y # ys)))"

lemma mapE_cong [fundef_cong]:
  "xs = ys \<Longrightarrow> (\<And>x. x \<in> set ys \<Longrightarrow> f x = g x) \<Longrightarrow> mapE f xs = mapE g ys"
  by (induction ys arbitrary: xs) (auto split: sum.splits)

text \<open>
  Conversion to a string, as a template literal, a property key and \<open>join\<close> perform it.
  An array is its elements joined with commas, where \<open>null\<close> and \<open>undefined\<close> elements
  give the empty string. An object is converted by its \<open>toString\<close> method: the inherited
  one gives \<open>[object Object]\<close>; an own property \<open>toString\<close> of a parsed object hides it
  and cannot be called, \<open>valueOf\<close> (own, not callable, or inherited, returning the
  object) gives no primitive either, and the conversion raises a \<open>TypeError\<close>.
\<close>

fun toStringJS :: "jsval \<Rightarrow> error + string" where
  "toStringJS JUndefined = Inr ''undefined''"
| "toStringJS JNull = Inr ''null''"
| "toStringJS (JBool b) = Inr (if b then ''true'' else ''false'')"
| "toStringJS (JNum r) = Inr r"
| "toStringJS (JStr s) = Inr s"
| "toStringJS (JArr vs) =
     (case mapE (\<lambda>v. if v = JUndefined \<or> v = JNull then Inr [] else toStringJS v) vs of
        Inl e \<Rightarrow> Inl e
      | Inr ss \<Rightarrow> Inr (join '','' ss))"
| "toStringJS (JObj kvs) =
     (if ''toString'' \<in> fst ` set kvs
      then Inl (TypeError ''Cannot convert object to primitive value'')
      else Inr ''[object Object]'')"

text \<open>\<^verbatim>\<open>vs.join(sep)\<close> on an array of values: the elements are converted in order.\<close>

definition joinJS :: "string \<Rightarrow> jsval list \<Rightarrow> error + string" where
  "joinJS sep vs =
     (case mapE (\<lambda>v. if v = JUndefined \<or> v = JNull then Inr [] else toStringJS v) vs of
        Inl e \<Rightarrow> Inl e
      | Inr ss \<Rightarrow> Inr (join sep ss))"

fun showNat :: "nat \<Rightarrow> string" where
  "showNat n =
     (if n < 10 then [''0123456789'' ! n]
      else showNat (n div 10) @ [''0123456789'' ! (n mod 10)])"

definition indexKeys :: "nat \<Rightarrow> string list" where
  "indexKeys n = map showNat [0..<n]"

text \<open>
  \<open>Object.entries\<close>: the own properties of an object; the indexed elements of an array
  and the indexed code units of a string; nothing for a number or a boolean; a
  \<open>TypeError\<close> for \<open>null\<close> and \<open>undefined\<close>.
\<close>

fun objectEntries :: "jsval \<Rightarrow> error + (string \<times> jsval) list" where
  "objectEntries JUndefined = Inl (TypeError ''Cannot convert undefined or null to object'')"
| "objectEntries JNull = Inl (TypeError ''Cannot convert undefined or null to object'')"
| "objectEntries (JObj kvs) = Inr kvs"
| "objectEntries (JArr vs) = Inr (zip (indexKeys (length vs)) vs)"
| "objectEntries (JStr s) = Inr (zip (indexKeys (length s)) (map (\<lambda>c. JStr [c]) s))"
| "objectEntries (JBool b) = Inr []"
| "objectEntries (JNum r) = Inr []"

text \<open>\<open>String.prototype.includes\<close>: the second string occurs inside the first.\<close>

fun includesStr :: "string \<Rightarrow> string \<Rightarrow> bool" where
  "includesStr [] k = (k = [])"
| "includesStr (c # cs) k = (take (length k) (c # cs) = k \<or> includesStr cs k)"

text \<open>
  \<^verbatim>\<open>s.required?.includes(k)\<close>: \<open>undefined\<close> for a missing or \<open>null\<close> list (falsy),
  the array or string method where there is one, and a \<open>TypeError\<close> for every other
  value, which has no callable \<open>includes\<close>.
\<close>

fun includesJS :: "jsval \<Rightarrow> string \<Rightarrow> error + bool" where
  "includesJS JUndefined k = Inr False"
| "includesJS JNull k = Inr False"
| "includesJS (JStr r) k = Inr (includesStr r k)"
| "includesJS (JArr vs) k = Inr (JStr k \<in> set vs)"
| "includesJS v k = Inl (TypeError ''s.required?.includes is not a function'')"

section \<open>The signature synthesizer (server.ts, lines 213-239)\<close>

text \<open>
  The last rule of \<open>toType\<close> looks \<open>s.type\<close> up in an object literal. The literal
  inherits from \<open>Object.prototype\<close>, so a key such as \<open>constructor\<close> finds a built-in
  member, which is truthy and is returned as it is. \<open>Inherited k\<close> stands for that
  member; \<open>render\<close> is the text a template literal makes of a result.
\<close>

datatype signature = Text string | Inherited string

definition objectPrototypeKeys :: "string list" where
  "objectPrototypeKeys =
     [''constructor'', ''__defineGetter__'', ''__defineSetter__'', ''hasOwnProperty'',
      ''__lookupGetter__'', ''__lookupSetter__'', ''isPrototypeOf'',
      ''propertyIsEnumerable'', ''toString'', ''valueOf'', ''__proto__'',
      ''toLocaleString'']"

definition inheritedText :: "string \<Rightarrow> string" where
  "inheritedText k =
     (if k = ''__proto__'' then ''[object Object]''
      else ''function '' @ (if k = ''constructor'' then ''Object'' else k)
           @ ''() { [native code] }'')"

fun render :: "signature \<Rightarrow> string" where
  "render (Text s) = s"
| "render (Inherited k) = inheritedText k"

definition primitiveTypes :: "(string \<times> string) list" where
  "primitiveTypes =
     [(''string'', ''string''), (''number'', ''number''), (''integer'', ''number''),
      (''boolean'', ''boolean''), (''null'', ''null'')]"

definition lookupType :: "jsval \<Rightarrow> error + signature" where
  "lookupType ty =
     (case toStringJS ty of
        Inl e \<Rightarrow> Inl e
      | Inr key \<Rightarrow>
          (case map_of primitiveTypes key of
             Some t \<Rightarrow> Inr (Text t)
           | None \<Rightarrow>
               Inr (if key \<in> set objectPrototypeKeys then Inherited key else Text ''any'')))"

text \<open>\<^verbatim>\<open>typeof v === 'string' ? `"${v}"` : v\<close>\<close>

definition enumLiteral :: "jsval \<Rightarrow> jsval" where
  "enumLiteral v = (case v of JStr x \<Rightarrow> JStr ([CHR 0x22] @ x @ [CHR 0x22]) | _ \<Rightarrow> v)"

text \<open>
  The measure of the recursion: a value read out of a schema, and an entry of its
  \<open>properties\<close>, weighs less than the schema.
\<close>

fun weight :: "jsval \<Rightarrow> nat" where
  "weight (JObj kvs) = Suc (sum_list (map (\<lambda>kv. weight (snd kv)) kvs))"
| "weight (JArr vs) = Suc (sum_list (map weight vs))"
| "weight (JStr s) = 2 * length s"
| "weight v = 0"

function toType :: "jsval \<Rightarrow> nat \<Rightarrow> error + signature" where
  "toType s d =
     (if \<not> truthy s then Inr (Text ''any'')
      else if truthy (getProp s ''enum'') then
        (case getProp s ''enum'' of
           JArr vs \<Rightarrow>
             (case joinJS '' | '' (map enumLiteral vs) of
                Inl e \<Rightarrow> Inl e
              | Inr u \<Rightarrow> Inr (Text u))
         | _ \<Rightarrow> Inl (TypeError ''s.enum.map is not a function''))
      else if getProp s ''type'' = JStr ''array'' then
        (if truthy (getProp s ''items'') then
           (case toType (getProp s ''items'') (d + 1) of
              Inl e \<Rightarrow> Inl e
            | Inr t \<Rightarrow> Inr (Text (''('' @ render t @ '')[]'')))
         else Inr (Text ''any[]''))
      else if getProp s ''type'' = JStr ''object'' then
        (if \<not> truthy (getProp s ''properties'') \<or> d > 2
         then Inr (Text ''{ [key: string]: any }'')
         else
           (case objectEntries (getProp s ''properties'') of
              Inl e \<Rightarrow> Inl e
            | Inr props \<Rightarrow>
                (case mapE (\<lambda>kv.
                        case includesJS (getProp s ''required'') (fst kv) of
                          Inl e \<Rightarrow> Inl e
                        | Inr req \<Rightarrow>
                            (case toType (snd kv) (d + 1) of
                               Inl e \<Rightarrow> Inl e
                             | Inr t \<Rightarrow>
                                 Inr (fst kv @ (if req then [] else ''?'') @ '': '' @ render t)))
                      props of
                   Inl e \<Rightarrow> Inl e
                 | Inr fields \<Rightarrow> Inr (Text (''{ '' @ join ''; '' fields @ '' }'')))))
      else lookupType (getProp s ''type''))"
  by pat_completeness auto

lemma weight_map_of: "map_of kvs k = Some v \<Longrightarrow> weight v < weight (JObj kvs)"
  by (induction kvs) (auto split: if_splits)

lemma weight_getProp: "truthy (getProp s k) \<Longrightarrow> weight (getProp s k) < weight s"
  by (cases s) (auto split: option.splits dest: weight_map_of)

lemma weight_zip_le: "(k, v) \<in> set (zip ks vs) \<Longrightarrow> weight v \<le> sum_list (map weight vs)"
  by (induction ks vs rule: list_induct2') auto

lemma weight_member:
  "kv \<in> set kvs \<Longrightarrow> weight (snd kv) \<le> sum_list (map (\<lambda>kv. weight (snd kv)) kvs)"
  by (induction kvs) auto

lemma weight_chars:
  "(k, v) \<in> set (zip ks (map (\<lambda>c. JStr [c]) cs)) \<Longrightarrow> weight v \<le> 2 * length cs"
  by (induction ks cs rule: list_induct2') auto

lemma weight_entries:
  assumes "objectEntries p = Inr props" and "kv \<in> set props"
  shows "weight (snd kv) \<le> weight p"
proof (cases kv)
  case (Pair k v)
  show ?thesis
  proof (cases p)
    case (JObj kvs)
    with assms show ?thesis using weight_member [of kv kvs] by auto
  next
    case (JArr vs)
    with assms Pair have "(k, v) \<in> set (zip (indexKeys (length vs)) vs)" by simp
    then have "weight v \<le> sum_list (map weight vs)" by (rule weight_zip_le)
    with JArr Pair show ?thesis by simp
  next
    case (JStr cs)
    with assms Pair
    have "(k, v) \<in> set (zip (indexKeys (length cs)) (map (\<lambda>c. JStr [c]) cs))"
      by simp
    then have "weight v \<le> 2 * length cs" by (rule weight_chars)
    with JStr Pair show ?thesis by simp
  qed (use assms in auto)
qed

termination toType
proof (relation "measure (\<lambda>(s, d). weight s)")
  show "wf (measure (\<lambda>(s, d). weight s))" by simp
next
  fix s :: jsval and d :: nat
  assume "truthy (getProp s ''items'')"
  then show "((getProp s ''items'', d + 1), s, d) \<in> measure (\<lambda>(s, d). weight s)"
    using weight_getProp [of s "''items''"] by simp
next
  fix s :: jsval and d :: nat and props kv
  assume "\<not> (\<not> truthy (getProp s ''properties'') \<or> 2 < d)"
    and "objectEntries (getProp s ''properties'') = Inr props" and "kv \<in> set props"
  then show "((snd kv, d + 1), s, d) \<in> measure (\<lambda>(s, d). weight s)"
    using weight_getProp [of s "''properties''"]
      weight_entries [of "getProp s ''properties''" props kv]
    by simp
qed

declare toType.simps [simp del]

section \<open>Placeholder expansion (server.ts, lines 142-156)\<close>

text \<open>
  \<^verbatim>\<open>s.replaceAll(/\$\{([^}]+)\}/g, (_, v) => process.env[v] || _)\<close>.
  A match at the start of \<open>s\<close> is \<open>${\<close>, then the longest run of characters other than
  \<open>}\<close>, which must not be empty, then \<open>}\<close>. \<open>matchPlaceholder\<close> gives the captured
  name and the text after the match.
\<close>

definition matchPlaceholder :: "string \<Rightarrow> (string \<times> string) option" where
  "matchPlaceholder s =
     (case s of
        a # b # r \<Rightarrow>
          if a = CHR ''$'' \<and> b = CHR ''{'' then
            (let v = takeWhile (\<lambda>c. c \<noteq> CHR ''}'') r;
                 rest = dropWhile (\<lambda>c. c \<noteq> CHR ''}'') r
             in if v \<noteq> [] \<and> rest \<noteq> [] then Some (v, tl rest) else None)
          else None
      | _ \<Rightarrow> None)"

text \<open>
  The callback \<^verbatim>\<open>process.env[v] || _\<close>, where \<open>_\<close> is the whole match. A variable that
  is set gives its value when that is not empty; \<open>process.env\<close> inherits from
  \<open>Object.prototype\<close>, so the name of an inherited member that is not set as a variable
  gives that member, as text.
\<close>

definition replacement :: "(string \<rightharpoonup> string) \<Rightarrow> string \<Rightarrow> string \<Rightarrow> string" where
  "replacement penv v whole =
     (case penv v of
        Some x \<Rightarrow> if x \<noteq> [] then x else whole
      | None \<Rightarrow> if v \<in> set objectPrototypeKeys then inheritedText v else whole)"

lemma matchPlaceholder_shorter:
  assumes "matchPlaceholder s = Some (v, rest)"
  shows "length rest < length s"
proof -
  from assms obtain a b r where s: "s = a # b # r"
    by (cases s; cases "tl s") (auto simp: matchPlaceholder_def)
  let ?d = "dropWhile (\<lambda>c. c \<noteq> CHR ''}'') r"
  from assms s have "rest = tl ?d" and "?d \<noteq> []"
    by (auto simp: matchPlaceholder_def Let_def split: if_splits)
  moreover have "length ?d \<le> length r" by (rule length_dropWhile_le)
  ultimately show ?thesis using s by (cases ?d) auto
qed

function expandEnv :: "(string \<rightharpoonup> string) \<Rightarrow> string \<Rightarrow> string" where
  "expandEnv penv [] = []"
| "expandEnv penv (c # cs) =
     (case matchPlaceholder (c # cs) of
        Some (v, rest) \<Rightarrow> replacement penv v (''${'' @ v @ ''}'') @ expandEnv penv rest
      | None \<Rightarrow> c # expandEnv penv cs)"
  by pat_completeness auto
termination
  by (relation "measure (\<lambda>(penv, s). length s)") (auto dest: matchPlaceholder_shorter)

declare expandEnv.simps [simp del]

text \<open>
  A text is open-ended when some \<open>${\<close> in it has no \<open>}\<close> after it: a match that starts
  there runs on into whatever text follows.
\<close>

fun openEnded :: "string \<Rightarrow> bool" where
  "openEnded [] = False"
| "openEnded (c # cs) =
     ((take 2 (c # cs) = ''${'' \<and> CHR ''}'' \<notin> set (drop 1 cs)) \<or> openEnded cs)"

section \<open>Configuration, registry and the outside world\<close>

text \<open>
  \<open>Server\<close> and \<open>Servers\<close> are the configuration types the module imports; the fields
  are the ones it reads. \<open>servers\<close> is optional here because \<open>init\<close> can pass the
  parse of \<open>{}\<close>, which has no such property.
\<close>

record codemode =
  allow :: "string list option"
  deny :: "string list option"

record Server =
  url :: "string option"
  headers :: "(string \<times> string) list option"
  env :: "(string \<times> string) list option"
  command :: "string option"
  args :: "string list option"
  codemode :: "codemode option"

record Servers =
  servers :: "(string \<times> Server) list option"

record ServerTool =
  name :: string
  description :: "string option"
  inputSchema :: jsval

text \<open>
  The result of a tool call, as the call-result schema passed to \<open>callTool\<close> types it:
  the structured payload is an object where there is one.
\<close>

record CallToolResult =
  structuredContent :: "(string \<times> jsval) list option"
  content :: jsval

record RegistryEntry =
  serverName :: string
  cfg :: Server
  tool :: ServerTool

text \<open>
  A value of the dispatch map made by \<open>prepareTools\<close>. A function
  \<^verbatim>\<open>(args) => executeTool(serverName, tool.name, args)\<close> is the pair it closes over.
  A value is a namespace object, made by \<open>{}\<close>, or such a function; both carry the
  properties written into them, and the function that an assignment to \<open>__proto__\<close> has
  made their prototype, if there was one.
\<close>

type_synonym target = "string \<times> string"

datatype dispatch =
    Fn target "(string \<times> target) list" "target option"
  | Namespace "(string \<times> target) list" "target option"

record ServerConfig =
  tools :: "(string \<times> dispatch) list"
  interfaces :: string
  serverTools :: "(string \<times> ServerTool) list"

record state =
  server :: "(string \<times> string) option"
  serverConfig :: ServerConfig
  toolRegistry :: "RegistryEntry list"

definition emptyState :: state where
  "emptyState =
     \<lparr>server = None, serverConfig = \<lparr>tools = [], interfaces = [], serverTools = []\<rparr>,
      toolRegistry = []\<rparr>"

text \<open>
  What lies outside the module. A transport is what \<open>getClient\<close> constructs; a backend
  is how the endpoint behind a transport answers; the trace records what reached the
  network or a subprocess. The file system, \<open>JSON.parse\<close> (read at the type
  \<open>Servers\<close>), the URL parser and the front-end listener are parameters of the world.
  So is the rest of a run that has written into a built-in object (see \<open>prepareTool\<close>):
  \<open>builtinWritten\<close> is given what the run had collected and gives its outcome.
\<close>

datatype transport =
    StreamableHTTP string "(string \<times> string) list option"
  | Stdio "string option" "string list" "(string \<times> string) list"

datatype request = ToolsList | ToolsCall string jsval

datatype event = Connect string transport | Request string request | Close string

record backend =
  connectError :: "error option"
  listTools :: "error + ServerTool list"
  callTool :: "string \<Rightarrow> jsval \<Rightarrow> error + CallToolResult"
  closeError :: "error option"

record world =
  processEnv :: "string \<rightharpoonup> string"
  validURL :: "string \<Rightarrow> bool"
  network :: "transport \<Rightarrow> backend"
  readFile :: "string \<Rightarrow> error + string"
  JSON_parse :: "string \<Rightarrow> error + Servers"
  registerToolsError :: "error option"
  serverConnectError :: "error option"
  builtinWritten :: "(string \<times> target) list \<Rightarrow> ServerTool list \<Rightarrow> state \<Rightarrow> event list
                       \<Rightarrow> (error + unit) \<times> state \<times> event list"

text \<open>
  Assignment \<open>obj[k] = v\<close> on an object kept as a property list: an existing key keeps
  its place, a new key goes to the end.
\<close>

fun setProp :: "'k \<Rightarrow> 'v \<Rightarrow> ('k \<times> 'v) list \<Rightarrow> ('k \<times> 'v) list" where
  "setProp k v [] = [(k, v)]"
| "setProp k v (p # ps) = (if fst p = k then (k, v) # ps else p # setProp k v ps)"

definition expand :: "(string \<rightharpoonup> string) \<Rightarrow> Server \<Rightarrow> Server" where
  "expand penv c =
     c\<lparr>headers := map_option (map (\<lambda>(k, v). (k, expandEnv penv v))) (headers c),
       env := map_option (map (\<lambda>(k, v). (k, expandEnv penv v))) (env c)\<rparr>"

section \<open>The backend connector (server.ts, lines 158-181)\<close>

text \<open>
  Lines 163-172: a truthy \<open>url\<close> selects the HTTP transport, and \<open>new URL(url)\<close> raises
  on a string that is not a URL; otherwise the subprocess transport is made, with
  \<open>NODE_NO_WARNINGS\<close> forced to \<open>1\<close>.
\<close>

definition newTransport :: "world \<Rightarrow> Server \<Rightarrow> error + transport" where
  "newTransport w c =
     (if (case url c of Some u \<Rightarrow> u \<noteq> [] | None \<Rightarrow> False) then
        (if validURL w (the (url c)) then Inr (StreamableHTTP (the (url c)) (headers c))
         else Inl (TypeError ''Invalid URL''))
      else
        Inr (Stdio (command c)
               (case args c of Some a \<Rightarrow> a | None \<Rightarrow> [])
               (setProp ''NODE_NO_WARNINGS'' ''1'' (case env c of Some e \<Rightarrow> e | None \<Rightarrow> []))))"

text \<open>
  The \<open>finally\<close> block (line 179): \<open>client.close()\<close> runs after the \<open>try\<close> block
  however that ended; an error of \<open>close\<close> replaces the outcome.
\<close>

definition closeClient ::
  "backend \<Rightarrow> string \<Rightarrow> (error + 'a) \<times> event list \<Rightarrow> (error + 'a) \<times> event list" where
  "closeClient b nm outcome =
     (case closeError b of
        Some e \<Rightarrow> (Inl e, snd outcome @ [Close nm])
      | None \<Rightarrow> (fst outcome, snd outcome @ [Close nm]))"

text \<open>
  The callback gets the client of the session; what it can do with it here is send
  requests, as the two callbacks of this module do, so it is a function from the
  backend's behaviour to the requests sent and the outcome.
\<close>

definition getClient ::
  "world \<Rightarrow> Server \<Rightarrow> string \<Rightarrow> (backend \<Rightarrow> request list \<times> (error + 'a)) \<Rightarrow> event list
     \<Rightarrow> (error + 'a) \<times> event list" where
  "getClient w c nm cb tr =
     (case newTransport w (expand (processEnv w) c) of
        Inl e \<Rightarrow> (Inl e, tr)
      | Inr t \<Rightarrow>
          (let b = network w t; tr1 = tr @ [Connect nm t] in
           closeClient b nm
             (case connectError b of
                Some e \<Rightarrow> (Inl e, tr1)
              | None \<Rightarrow> (snd (cb b), tr1 @ map (Request nm) (fst (cb b))))))"

section \<open>The invocation router (server.ts, lines 64-77)\<close>

definition orElse :: "jsval \<Rightarrow> jsval \<Rightarrow> jsval" where
  "orElse a b = (if truthy a then a else b)"

definition executeTool ::
  "world \<Rightarrow> state \<Rightarrow> string \<Rightarrow> string \<Rightarrow> jsval \<Rightarrow> event list \<Rightarrow> (error + jsval) \<times> event list"
  where
  "executeTool w st sname tname arguments tr =
     (case find (\<lambda>e. serverName e = sname \<and> name (tool e) = tname) (toolRegistry st) of
        None \<Rightarrow> (Inl (Error (''Tool '' @ sname @ ''.'' @ tname @ '' not found'')), tr)
      | Some entry \<Rightarrow>
          (case getClient w (cfg entry) sname
                  (\<lambda>b. ([ToolsCall tname arguments], callTool b tname arguments)) tr of
             (Inl e, tr') \<Rightarrow> (Inl e, tr')
           | (Inr result, tr') \<Rightarrow>
               (Inr (orElse (case structuredContent result of
                               Some obj \<Rightarrow> JObj obj | None \<Rightarrow> JUndefined)
                            (content result)), tr')))"

section \<open>The catalog aggregator (server.ts, lines 79-140 and 186-211)\<close>

text \<open>
  Lines 97-99. \<^verbatim>\<open>cfg.codemode?.allow\<close> is \<open>undefined\<close> when \<open>codemode\<close> or \<open>allow\<close>
  is missing; an array, the empty one too, is truthy. \<^verbatim>\<open>xs?.includes(x)\<close> on a missing
  list is \<open>undefined\<close>, which is falsy.
\<close>

definition allowOf :: "Server \<Rightarrow> string list option" where
  "allowOf c = (case codemode c of None \<Rightarrow> None | Some m \<Rightarrow> allow m)"

definition denyOf :: "Server \<Rightarrow> string list option" where
  "denyOf c = (case codemode c of None \<Rightarrow> None | Some m \<Rightarrow> deny m)"

definition optIncludes :: "string list option \<Rightarrow> string \<Rightarrow> bool" where
  "optIncludes xs x = (case xs of None \<Rightarrow> False | Some ys \<Rightarrow> x \<in> set ys)"

definition filterTools :: "Server \<Rightarrow> ServerTool list \<Rightarrow> ServerTool list" where
  "filterTools c ts =
     (if allowOf c \<noteq> None
      then filter (\<lambda>t. optIncludes (allowOf c) (name t)) ts
      else filter (\<lambda>t. \<not> optIncludes (denyOf c) (name t)) ts)"

text \<open>
  The body of \<open>forEach\<close> (lines 101-128) for one tool, on the module state and the two
  local collections \<open>rawTools\<close> and \<open>toolList\<close>.
\<close>

type_synonym aggregation = "state \<times> (string \<times> target) list \<times> ServerTool list"

definition addTool :: "string \<Rightarrow> Server \<Rightarrow> ServerTool \<Rightarrow> aggregation \<Rightarrow> aggregation" where
  "addTool sname c t acc =
     (case acc of (st, rawTools, toolList) \<Rightarrow>
        (let callable = callableName sname (name t) in
         (st\<lparr>serverConfig := (serverConfig st)
                  \<lparr>serverTools := setProp callable (t\<lparr>name := callable\<rparr>)
                                    (serverTools (serverConfig st))\<rparr>,
              toolRegistry := toolRegistry st @
                  [\<lparr>serverName = sname, cfg = c,
                    tool = \<lparr>name = name t, description = description t,
                            inputSchema = inputSchema t\<rparr>\<rparr>]\<rparr>,
          setProp (fullName sname (name t)) (sname, name t) rawTools,
          toolList @ [\<lparr>name = fullName sname (name t), description = description t,
                      inputSchema = inputSchema t\<rparr>])))"

text \<open>
  One backend (lines 85-134): the tool list is requested through the connector; an
  error of that call is caught and logged, and the backend adds nothing. The listings
  are requested concurrently; what follows a listing (filtering and the \<open>forEach\<close>)
  runs without interruption once that listing has settled. The fold takes the backends
  in the order of its list; another order of settling is the same fold over the list
  in that order.
\<close>

definition queryBackend ::
  "world \<Rightarrow> string \<times> Server \<Rightarrow> aggregation \<times> event list \<Rightarrow> aggregation \<times> event list" where
  "queryBackend w entry acc =
     (case getClient w (snd entry) (fst entry) (\<lambda>b. ([ToolsList], listTools b)) (snd acc) of
        (Inl e, tr') \<Rightarrow> (fst acc, tr')
      | (Inr ts, tr') \<Rightarrow>
          (fold (addTool (fst entry) (snd entry)) (filterTools (snd entry) ts) (fst acc), tr'))"

text \<open>
  \<open>prepareTools\<close> (lines 186-200), in strict code. The assignment
  \<^verbatim>\<open>out[ns][tool] = fn\<close> on a namespace object or a function:
  \<^item> \<open>__proto__\<close> is the accessor inherited from \<open>Object.prototype\<close>; its setter makes
    \<open>fn\<close> the prototype of the receiver and adds no property;
  \<^item> a key the receiver owns (from an earlier assignment) is overwritten;
  \<^item> \<open>length\<close> and \<open>name\<close> are properties of every function that cannot be written,
    and \<open>caller\<close> and \<open>arguments\<close> are accessors of \<open>Function.prototype\<close>
    that raise; a function receiver has them, and a namespace object has them once a
    function is its prototype: the assignment raises a \<open>TypeError\<close>;
  \<^item> every other key becomes a new own property.

  The text of the error is the engine's; a short one stands for it here.
\<close>

definition restrictedNames :: "string list" where
  "restrictedNames = [''length'', ''name'', ''caller'', ''arguments'']"

definition setMember :: "string \<Rightarrow> target \<Rightarrow> dispatch \<Rightarrow> error + dispatch" where
  "setMember k fn d =
     (case d of
        Namespace members proto \<Rightarrow>
          if k = ''__proto__'' then Inr (Namespace members (Some fn))
          else if k \<in> fst ` set members then Inr (Namespace (setProp k fn members) proto)
          else if proto \<noteq> None \<and> k \<in> set restrictedNames
          then Inl (TypeError (''Cannot assign to property '' @ k))
          else Inr (Namespace (setProp k fn members) proto)
      | Fn f members proto \<Rightarrow>
          if k = ''__proto__'' then Inr (Fn f members (Some fn))
          else if k \<in> set restrictedNames
          then Inl (TypeError (''Cannot assign to property '' @ k))
          else Inr (Fn f (setProp k fn members) proto))"

text \<open>
  One round of the loop. \<^verbatim>\<open>out[ns] = out[ns] || {}\<close> reads and writes an own property
  of \<open>out\<close> when the key is not the name of a member of \<open>Object.prototype\<close>. When it
  is, the source reads that built-in member and assigns into it (or, for \<open>__proto__\<close>,
  into \<open>Object.prototype\<close> itself), which changes what later property reads anywhere
  in the program find. That is not followed here: the result is \<open>None\<close>, and
  \<open>getAllServerTools\<close> hands such a run to the world.
\<close>

definition prepareTool ::
  "string \<times> target \<Rightarrow> (string \<times> dispatch) list \<Rightarrow> (error + (string \<times> dispatch) list) option"
  where
  "prepareTool entry out =
     (let parts = split CHR ''.'' (fst entry) in
      if length parts > 1 then
        (if namespaceOf parts \<in> set objectPrototypeKeys then None
         else
           (case setMember (flatToolOf parts) (snd entry)
                   (case map_of out (namespaceOf parts) of
                      Some d \<Rightarrow> d | None \<Rightarrow> Namespace [] None) of
              Inl e \<Rightarrow> Some (Inl e)
            | Inr d \<Rightarrow> Some (Inr (setProp (namespaceOf parts) d out))))
      else if sanitize (fst entry) \<in> set objectPrototypeKeys then None
      else Some (Inr (setProp (sanitize (fst entry)) (Fn (snd entry) [] None) out)))"

text \<open>The loop over \<open>Object.entries(tools)\<close>: the first error ends it.\<close>

fun prepareToolsFrom ::
  "(string \<times> dispatch) list \<Rightarrow> (string \<times> target) list
     \<Rightarrow> (error + (string \<times> dispatch) list) option" where
  "prepareToolsFrom out [] = Some (Inr out)"
| "prepareToolsFrom out (entry # entries) =
     (case prepareTool entry out of
        None \<Rightarrow> None
      | Some (Inl e) \<Rightarrow> Some (Inl e)
      | Some (Inr out') \<Rightarrow> prepareToolsFrom out' entries)"

definition prepareTools ::
  "(string \<times> target) list \<Rightarrow> (error + (string \<times> dispatch) list) option" where
  "prepareTools ts = prepareToolsFrom [] ts"

definition generateInterface :: "ServerTool \<Rightarrow> error + string" where
  "generateInterface t =
     (let parts = split CHR ''.'' (name t);
          descr = (case description t of Some x \<Rightarrow> x | None \<Rightarrow> ''undefined'')
      in case toType (inputSchema t) 0 of
           Inl e \<Rightarrow> Inl e
         | Inr ty \<Rightarrow>
             Inr (if length parts > 1
                  then ''namespace '' @ namespaceOf parts @ '' { /* '' @ descr
                       @ '' */ function '' @ flatToolOf parts @ ''(args: '' @ render ty
                       @ ''): Promise<any>; }''
                  else ''/* '' @ descr @ '' */ function '' @ sanitize (name t)
                       @ ''(args: '' @ render ty @ ''): Promise<any>;''))"

definition generateInterfaces :: "ServerTool list \<Rightarrow> error + string" where
  "generateInterfaces ts =
     (case mapE generateInterface ts of
        Inl e \<Rightarrow> Inl e
      | Inr ls \<Rightarrow> Inr (join [CHR 0x0A] ls))"

text \<open>
  \<open>getAllServerTools\<close>: \<open>Object.entries\<close> raises on a missing \<open>servers\<close>; the two
  assignments of lines 138-139 stand outside the \<open>try\<close> block, so an error of
  \<open>prepareTools\<close> or of the signature synthesizer leaves the function.
\<close>

definition getAllServerTools ::
  "world \<Rightarrow> Servers \<Rightarrow> state \<Rightarrow> event list \<Rightarrow> (error + unit) \<times> state \<times> event list" where
  "getAllServerTools w input st tr =
     (case servers input of
        None \<Rightarrow> (Inl (TypeError ''Cannot convert undefined or null to object''), st, tr)
      | Some bs \<Rightarrow>
          (case fold (queryBackend w) bs ((st, [], []), tr) of
             ((st1, rawTools, toolList), tr1) \<Rightarrow>
               (case prepareTools rawTools of
                  None \<Rightarrow> builtinWritten w rawTools toolList st1 tr1
                | Some (Inl e) \<Rightarrow> (Inl e, st1, tr1)
                | Some (Inr out) \<Rightarrow>
                    (let st2 = st1\<lparr>serverConfig := (serverConfig st1)\<lparr>tools := out\<rparr>\<rparr>
                     in case generateInterfaces toolList of
                          Inl e \<Rightarrow> (Inl e, st2, tr1)
                        | Inr doc \<Rightarrow>
                            (Inr (),
                             st2\<lparr>serverConfig := (serverConfig st2)\<lparr>interfaces := doc\<rparr>\<rparr>,
                             tr1)))))"

section \<open>Initialization (server.ts, lines 36-44)\<close>

definition configPath :: "world \<Rightarrow> string" where
  "configPath w = (case processEnv w ''CODEMODE_SERVERS'' of Some p \<Rightarrow> p | None \<Rightarrow> [])"

definition init :: "world \<Rightarrow> state \<Rightarrow> event list \<Rightarrow> (error + unit) \<times> state \<times> event list" where
  "init w st tr =
     (case readFile w (configPath w) of
        Inl e \<Rightarrow> (Inl e, st, tr)
      | Inr content' \<Rightarrow>
          (case JSON_parse w (if content' \<noteq> [] then content' else ''{}'') of
             Inl e \<Rightarrow> (Inl e, st, tr)
           | Inr input \<Rightarrow>
               (case getAllServerTools w input st tr of
                  (Inl e, st1, tr1) \<Rightarrow> (Inl e, st1, tr1)
                | (Inr u, st1, tr1) \<Rightarrow>
                    (let st2 = st1\<lparr>server := Some (''codemode'', ''1.0.0'')\<rparr> in
                     case registerToolsError w of
                       Some e \<Rightarrow> (Inl e, st2, tr1)
                     | None \<Rightarrow>
                         (case serverConnectError w of
                            Some e \<Rightarrow> (Inl e, st2, tr1)
                          | None \<Rightarrow> (Inr (), st2, tr1))))))"

section \<open>Notions used in the statements\<close>

text \<open>
  A value is stringable when its conversion to a string does not raise: no object with
  an own property \<open>toString\<close> is the value or an element of it, at any depth of arrays.
\<close>

fun stringable :: "jsval \<Rightarrow> bool" where
  "stringable (JObj kvs) = (''toString'' \<notin> fst ` set kvs)"
| "stringable (JArr vs) = (\<forall>v \<in> set vs. stringable v)"
| "stringable v = True"

definition requiredOk :: "jsval \<Rightarrow> bool" where
  "requiredOk r =
     (case r of JUndefined \<Rightarrow> True | JNull \<Rightarrow> True | JStr x \<Rightarrow> True | JArr vs \<Rightarrow> True
      | _ \<Rightarrow> False)"

text \<open>
  A schema value is safe at depth \<open>d\<close> when, along the nodes \<open>toType\<close> visits from
  there: a truthy \<open>enum\<close> is an array of stringable values; the items of an array type
  are safe; under an object type with truthy \<open>properties\<close>, at depth at most 2 and with
  at least one entry, \<open>required\<close> is missing, \<open>null\<close>, a string or an array and every
  entry is safe; and a \<open>type\<close> that reaches the table of primitive types is stringable.
\<close>

function safe :: "jsval \<Rightarrow> nat \<Rightarrow> bool" where
  "safe s d =
     (if \<not> truthy s then True
      else if truthy (getProp s ''enum'') then
        (case getProp s ''enum'' of JArr vs \<Rightarrow> (\<forall>v \<in> set vs. stringable v) | _ \<Rightarrow> False)
      else if getProp s ''type'' = JStr ''array'' then
        (if truthy (getProp s ''items'') then safe (getProp s ''items'') (d + 1) else True)
      else if getProp s ''type'' = JStr ''object'' then
        (if \<not> truthy (getProp s ''properties'') \<or> d > 2 then True
         else
           (case objectEntries (getProp s ''properties'') of
              Inl e \<Rightarrow> False
            | Inr props \<Rightarrow>
                props = [] \<or>
                (requiredOk (getProp s ''required'')
                 \<and> (\<forall>kv \<in> set props. safe (snd kv) (d + 1)))))
      else stringable (getProp s ''type''))"
  by pat_completeness auto
termination
proof (relation "measure (\<lambda>(s, d). weight s)")
  show "wf (measure (\<lambda>(s, d). weight s))" by simp
next
  fix s :: jsval and d :: nat
  assume "truthy (getProp s ''items'')"
  then show "((getProp s ''items'', d + 1), s, d) \<in> measure (\<lambda>(s, d). weight s)"
    using weight_getProp [of s "''items''"] by simp
next
  fix s :: jsval and d :: nat and props kv
  assume "\<not> (\<not> truthy (getProp s ''properties'') \<or> 2 < d)"
    and "objectEntries (getProp s ''properties'') = Inr props" and "kv \<in> set props"
  then show "((snd kv, d + 1), s, d) \<in> measure (\<lambda>(s, d). weight s)"
    using weight_getProp [of s "''properties''"]
      weight_entries [of "getProp s ''properties''" props kv]
    by simp
qed

declare safe.simps [simp del]

text \<open>
  The node reaches the table of primitive types with a \<open>type\<close> that names a member
  inherited from \<open>Object.prototype\<close>.
\<close>

definition namesInherited :: "jsval \<Rightarrow> bool" where
  "namesInherited s =
     (truthy s \<and> \<not> truthy (getProp s ''enum'')
      \<and> (case toStringJS (getProp s ''type'') of
            Inl e \<Rightarrow> False
          | Inr key \<Rightarrow> key \<in> set objectPrototypeKeys))"

text \<open>The number of sessions closed in a trace.\<close>

fun isClose :: "event \<Rightarrow> bool" where
  "isClose (Close nm) = True"
| "isClose e = False"

definition closeCount :: "event list \<Rightarrow> nat" where
  "closeCount tr = length (filter isClose tr)"

text \<open>
  A backend succeeds when its session can be set up, connects, answers the tool-list
  request and closes, each without error; \<open>reportedTools\<close> is the answer, and
  \<open>entriesOf\<close> are the registry entries of its reported tools that pass the
  allow/deny filter. \<open>registered\<close> are the entries of the succeeding backends, in the
  order of the backends: what one aggregation should add to the registry.
\<close>

definition succeeds :: "world \<Rightarrow> Server \<Rightarrow> bool" where
  "succeeds w c =
     (case newTransport w (expand (processEnv w) c) of
        Inl e \<Rightarrow> False
      | Inr t \<Rightarrow>
          connectError (network w t) = None \<and> closeError (network w t) = None
          \<and> (case listTools (network w t) of Inl e \<Rightarrow> False | Inr ts \<Rightarrow> True))"

definition reportedTools :: "world \<Rightarrow> Server \<Rightarrow> ServerTool list" where
  "reportedTools w c =
     (case newTransport w (expand (processEnv w) c) of
        Inl e \<Rightarrow> []
      | Inr t \<Rightarrow> (case listTools (network w t) of Inl e \<Rightarrow> [] | Inr ts \<Rightarrow> ts))"

definition entriesOf :: "world \<Rightarrow> string \<times> Server \<Rightarrow> RegistryEntry list" where
  "entriesOf w entry =
     map (\<lambda>t. \<lparr>serverName = fst entry, cfg = snd entry, tool = t\<rparr>)
       (filterTools (snd entry) (reportedTools w (snd entry)))"

definition registered :: "world \<Rightarrow> (string \<times> Server) list \<Rightarrow> RegistryEntry list" where
  "registered w bs =
     concat (map (entriesOf w) (filter (\<lambda>entry. succeeds w (snd entry)) bs))"

text \<open>
  What one registered tool leaves in the two local collections of lines 80-81: the
  entry pushed on \<open>toolList\<close>, and the joined name that is its key in \<open>rawTools\<close>.
  \<open>filedNames\<close> are the keys of \<open>rawTools\<close> after the registered tools have been
  filed: each joined name once, in the order of first occurrence.
\<close>

definition listed :: "RegistryEntry \<Rightarrow> ServerTool" where
  "listed e =
     \<lparr>name = fullName (serverName e) (name (tool e)), description = description (tool e),
      inputSchema = inputSchema (tool e)\<rparr>"

definition filedAs :: "RegistryEntry \<Rightarrow> string" where
  "filedAs e = fullName (serverName e) (name (tool e))"

definition insertKey :: "'a \<Rightarrow> 'a list \<Rightarrow> 'a list" where
  "insertKey x ks = (if x \<in> set ks then ks else ks @ [x])"

definition firstOccurrences :: "'a list \<Rightarrow> 'a list" where
  "firstOccurrences xs = fold insertKey xs []"

definition filedNames :: "world \<Rightarrow> (string \<times> Server) list \<Rightarrow> string list" where
  "filedNames w bs = firstOccurrences (map filedAs (registered w bs))"

text \<open>
  The namespace and the flattened tool name of a joined name, and the condition under
  which a sequence of assignments \<open>out[ns][tool] = fn\<close> goes through: an assignment
  is blocked when its tool name is \<open>length\<close>, \<open>name\<close>, \<open>caller\<close> or \<open>arguments\<close>,
  \<open>__proto__\<close> has been assigned in its namespace before, and the same tool name has
  not.
\<close>

definition dispatchKey :: "string \<Rightarrow> string \<times> string" where
  "dispatchKey nm = (namespaceOf (split CHR ''.'' nm), flatToolOf (split CHR ''.'' nm))"

definition blocked :: "(string \<times> string) list \<Rightarrow> string \<times> string \<Rightarrow> bool" where
  "blocked seen w =
     (snd w \<in> set restrictedNames \<and> (fst w, ''__proto__'') \<in> set seen \<and> w \<notin> set seen)"

fun writesOk :: "(string \<times> string) list \<Rightarrow> (string \<times> string) list \<Rightarrow> bool" where
  "writesOk seen [] = True"
| "writesOk seen (w # ws) = (\<not> blocked seen w \<and> writesOk (w # seen) ws)"

text \<open>
  The invariant of the loop of \<open>prepareTools\<close> over dotted names: the dispatch map
  holds namespace objects only, with the tool names assigned so far as their properties
  and a prototype exactly where \<open>__proto__\<close> has been assigned.
\<close>

definition tracks :: "(string \<times> dispatch) list \<Rightarrow> (string \<times> string) list \<Rightarrow> bool" where
  "tracks out seen =
     (\<forall>ns. case map_of out ns of
        None \<Rightarrow> (\<forall>k. (ns, k) \<notin> set seen)
      | Some (Namespace ms proto) \<Rightarrow>
          (\<forall>k. k \<in> fst ` set ms \<longleftrightarrow> (ns, k) \<in> set seen \<and> k \<noteq> ''__proto__'')
          \<and> (proto \<noteq> None \<longleftrightarrow> (ns, ''__proto__'') \<in> set seen)
      | Some (Fn f ms proto) \<Rightarrow> False)"

text \<open>
  The flattened form of a raw tool name: its pieces between dots, each sanitized,
  joined with underscores.
\<close>

definition flatName :: "string \<Rightarrow> string" where
  "flatName n = join ''_'' (map sanitize (split CHR ''.'' n))"

subsection \<open>Example configurations and worlds\<close>

definition httpServer :: "string \<Rightarrow> Server" where
  "httpServer u = \<lparr>url = Some u, headers = None, env = None, command = None, args = None,
     codemode = None\<rparr>"

definition stdioServer :: "string \<Rightarrow> Server" where
  "stdioServer cmd = \<lparr>url = None, headers = None, env = None, command = Some cmd,
     args = None, codemode = None\<rparr>"

definition objectSchema :: jsval where
  "objectSchema = JObj [(''type'', JStr ''object'')]"

definition unreachable :: backend where
  "unreachable = \<lparr>connectError = Some (Error ''connect ECONNREFUSED''),
     listTools = Inl (McpError ''Not connected''),
     callTool = (\<lambda>tname arguments. Inl (McpError ''Not connected'')),
     closeError = None\<rparr>"

definition echoBackend :: backend where
  "echoBackend = \<lparr>connectError = None,
     listTools = Inr [\<lparr>name = ''echo'', description = Some ''Echo'', inputSchema = objectSchema\<rparr>,
                     \<lparr>name = ''plain'', description = None, inputSchema = objectSchema\<rparr>],
     callTool = (\<lambda>tname arguments.
        if tname = ''echo''
        then Inr \<lparr>structuredContent = Some [(''echoed'', arguments)],
                  content = JArr [JObj [(''type'', JStr ''text'')]]\<rparr>
        else if tname = ''plain''
        then Inr \<lparr>structuredContent = None, content = JArr [arguments]\<rparr>
        else Inl (McpError ''Unknown tool'')),
     closeError = None\<rparr>"

definition sloppyBackend :: backend where
  "sloppyBackend = echoBackend\<lparr>listTools :=
     Inr [\<lparr>name = ''run'', description = None,
           inputSchema = JObj [(''type'', JStr ''object''),
             (''properties'', JObj [(''mode'',
                JObj [(''type'', JStr ''string''), (''enum'', JStr ''fast'')])])]\<rparr>]\<rparr>"

definition exampleWorld :: world where
  "exampleWorld = \<lparr>processEnv = [''CODEMODE_SERVERS'' \<mapsto> ''/etc/codemode/servers.json''],
     validURL = (\<lambda>u. take 7 u = ''http://''),
     network = (\<lambda>t. case t of StreamableHTTP u h \<Rightarrow> echoBackend | Stdio c a e \<Rightarrow> unreachable),
     readFile = (\<lambda>p. Inl (SystemError ''ENOENT: no such file or directory'')),
     JSON_parse = (\<lambda>s. Inl (SyntaxError ''Unexpected token'')),
     registerToolsError = None,
     serverConnectError = None,
     builtinWritten = (\<lambda>rawTools toolList st tr. (Inl (Error ''built-in object modified''), st, tr))\<rparr>"

definition sloppyWorld :: world where
  "sloppyWorld = exampleWorld\<lparr>network :=
     (\<lambda>t. case t of StreamableHTTP u h \<Rightarrow> sloppyBackend | Stdio c a e \<Rightarrow> unreachable)\<rparr>"

text \<open>
  A backend with the two tools \<open>__proto__\<close> and \<open>length\<close>, and a backend with a tool
  whose schema has an \<open>enum\<close> that holds an object with a property \<open>toString\<close>.
\<close>

definition shadowBackend :: backend where
  "shadowBackend = echoBackend\<lparr>listTools :=
     Inr [\<lparr>name = ''__proto__'', description = None, inputSchema = objectSchema\<rparr>,
          \<lparr>name = ''length'', description = None, inputSchema = objectSchema\<rparr>]\<rparr>"

definition shadowWorld :: world where
  "shadowWorld = exampleWorld\<lparr>network :=
     (\<lambda>t. case t of StreamableHTTP u h \<Rightarrow> shadowBackend | Stdio c a e \<Rightarrow> unreachable)\<rparr>"

definition opaqueBackend :: backend where
  "opaqueBackend = echoBackend\<lparr>listTools :=
     Inr [\<lparr>name = ''pick'', description = None,
           inputSchema = JObj [(''type'', JStr ''object''),
             (''properties'', JObj [(''choice'',
                JObj [(''enum'', JArr [JObj [(''toString'', JNum ''1'')]])])])]\<rparr>]\<rparr>"

definition opaqueWorld :: world where
  "opaqueWorld = exampleWorld\<lparr>network :=
     (\<lambda>t. case t of StreamableHTTP u h \<Rightarrow> opaqueBackend | Stdio c a e \<Rightarrow> unreachable)\<rparr>"


definition twoBackends :: Servers where
  "twoBackends = \<lparr>servers = Some [(''X'', httpServer ''http://x.example/mcp''),
                                   (''Y'', stdioServer ''y-server'')]\<rparr>"

definition exampleState :: state where
  "exampleState = emptyState\<lparr>toolRegistry :=
     [\<lparr>serverName = ''X'', cfg = httpServer ''http://x.example/mcp'',
        tool = \<lparr>name = ''echo'', description = Some ''Echo'', inputSchema = objectSchema\<rparr>\<rparr>,
      \<lparr>serverName = ''X'', cfg = httpServer ''http://x.example/mcp'',
        tool = \<lparr>name = ''plain'', description = None, inputSchema = objectSchema\<rparr>\<rparr>]\<rparr>"

section \<open>Properties of the sanitizer\<close>

lemma isWordChar_underscore: "isWordChar CHR ''_''"
  by (simp add: isWordChar_def)

lemma not_isDigit_underscore: "\<not> isDigit CHR ''_''"
  by (simp add: isDigit_def)

lemma isDigit_isWordChar: "isDigit c \<Longrightarrow> isWordChar c"
  by (auto simp: isDigit_def isWordChar_def)

lemma not_isWordChar_dot: "\<not> isWordChar CHR ''.''"
  by (simp add: isWordChar_def)

lemma replaceNonWord_word: "\<forall>c \<in> set (replaceNonWord s). isWordChar c"
  by (auto simp: replaceNonWord_def isWordChar_underscore)

lemma replaceNonWord_fixed: "\<forall>c \<in> set s. isWordChar c \<Longrightarrow> replaceNonWord s = s"
  by (induction s) (auto simp: replaceNonWord_def)

lemma prefixLeadingDigit_word:
  "\<forall>c \<in> set s. isWordChar c \<Longrightarrow> \<forall>c \<in> set (prefixLeadingDigit s). isWordChar c"
  by (cases s) (auto simp: prefixLeadingDigit_def isWordChar_underscore)

lemma prefixLeadingDigit_fixed: "prefixLeadingDigit (prefixLeadingDigit s) = prefixLeadingDigit s"
  by (cases s) (auto simp: prefixLeadingDigit_def not_isDigit_underscore)

lemma sanitize_word: "\<forall>c \<in> set (sanitize s). isWordChar c"
  unfolding sanitize_def by (rule prefixLeadingDigit_word) (rule replaceNonWord_word)

lemma sanitize_no_dot: "CHR ''.'' \<notin> set (sanitize s)"
  using sanitize_word [of s] not_isWordChar_dot by blast

text \<open>
  Claim C8. Sanitizing is idempotent: for every string \<open>x\<close>,
  \<open>sanitize (sanitize x) = sanitize x\<close>.
\<close>

theorem sanitize_idempotent: "sanitize (sanitize x) = sanitize x"
proof -
  have "replaceNonWord (sanitize x) = sanitize x"
    by (rule replaceNonWord_fixed) (rule sanitize_word)
  then have "sanitize (sanitize x) = prefixLeadingDigit (sanitize x)"
    by (simp add: sanitize_def)
  also have "\<dots> = sanitize x"
    by (simp add: sanitize_def prefixLeadingDigit_fixed)
  finally show ?thesis .
qed

section \<open>Properties of the qualification step\<close>

lemma split_no_sep: "sep \<notin> set xs \<Longrightarrow> split sep xs = [xs]"
  by (induction xs) auto

lemma split_append_sep:
  "sep \<notin> set xs \<Longrightarrow> split sep (xs @ sep # ys) = xs # split sep ys"
  by (induction xs) auto

lemma split_not_Nil: "split sep s \<noteq> []"
  by (induction s) (auto split: list.splits)

lemma split_dotted: "sep \<in> set s \<Longrightarrow> length (split sep s) > 1"
proof (induction s)
  case Nil
  then show ?case by simp
next
  case (Cons c cs)
  show ?case
  proof (cases "c = sep")
    case True
    then show ?thesis using split_not_Nil [of sep cs] by (cases "split sep cs") auto
  next
    case False
    with Cons show ?thesis using split_not_Nil [of sep cs] by (cases "split sep cs") auto
  qed
qed

lemma fullName_dotted: "length (split CHR ''.'' (fullName n t)) > 1"
  by (rule split_dotted) (simp add: fullName_def)

text \<open>
  The joined name is split at every dot, whichever side it came from: with no dot in
  the identifier, the namespace is the sanitized identifier and the rest is the
  flattened raw name; a dot in the identifier moves what follows it into the rest.
\<close>

lemma callableName_dot_free_backend:
  assumes "CHR ''.'' \<notin> set b"
  shows "callableName b n = sanitize b @ ''.'' @ flatName n"
proof -
  have "split CHR ''.'' (fullName b n) = b # split CHR ''.'' n"
    using assms by (simp add: fullName_def split_append_sep)
  then show ?thesis
    using fullName_dotted [of b n]
    by (simp add: callableName_def qualify_def namespaceOf_def flatToolOf_def flatName_def)
qed

lemma callableName_dotted_backend:
  assumes "CHR ''.'' \<notin> set x"
  shows "callableName (x @ ''.'' @ y) n = sanitize x @ ''.'' @ flatName (y @ ''.'' @ n)"
proof -
  have "split CHR ''.'' (fullName (x @ ''.'' @ y) n) = x # split CHR ''.'' (y @ ''.'' @ n)"
    using assms by (simp add: fullName_def split_append_sep)
  then show ?thesis
    using fullName_dotted [of "x @ ''.'' @ y" n]
    by (simp add: callableName_def qualify_def namespaceOf_def flatToolOf_def flatName_def)
qed

lemma dot_separated_eq:
  assumes "CHR ''.'' \<notin> set x" and "CHR ''.'' \<notin> set x'"
    and "x @ ''.'' @ y = x' @ ''.'' @ y'"
  shows "x = x' \<and> y = y'"
proof -
  have "split CHR ''.'' (x @ CHR ''.'' # y) = split CHR ''.'' (x' @ CHR ''.'' # y')"
    using assms(3) by simp
  then have "x = x'"
    using assms(1,2) by (simp add: split_append_sep)
  with assms(3) show ?thesis by simp
qed

text \<open>
  Claim C9, as amended. For two (backend identifier, raw tool name) pairs whose
  identifiers contain no dot, whatever the raw names are, the qualified names are equal
  exactly when the sanitized identifiers are equal and the flattened raw names (the
  pieces between dots, each sanitized, joined with underscores) are equal. So on such
  pairs qualification is injective where these sanitized forms do not collide. (With a
  dot in an identifier this fails, see the collision below.)
\<close>

theorem callableName_injective_dot_free:
  assumes "CHR ''.'' \<notin> set b" and "CHR ''.'' \<notin> set b'"
  shows "callableName b n = callableName b' n' \<longleftrightarrow>
         sanitize b = sanitize b' \<and> flatName n = flatName n'"
proof
  assume "callableName b n = callableName b' n'"
  then have "sanitize b @ ''.'' @ flatName n = sanitize b' @ ''.'' @ flatName n'"
    using assms by (simp add: callableName_dot_free_backend)
  then show "sanitize b = sanitize b' \<and> flatName n = flatName n'"
    by (rule dot_separated_eq [OF sanitize_no_dot sanitize_no_dot])
next
  assume "sanitize b = sanitize b' \<and> flatName n = flatName n'"
  then show "callableName b n = callableName b' n'"
    using assms by (simp add: callableName_dot_free_backend)
qed

theorem callableName_injective_dot_free_witness:
  "CHR ''.'' \<notin> set ''git-hub'' \<and> CHR ''.'' \<notin> set ''git_hub''
   \<and> sanitize ''git-hub'' = sanitize ''git_hub''
   \<and> flatName ''issues.list all'' = flatName ''issues.list-all''
   \<and> callableName ''git-hub'' ''issues.list all'' = callableName ''git_hub'' ''issues.list-all''
   \<and> flatName ''issues.list'' \<noteq> flatName ''issues.1ist''
   \<and> callableName ''git-hub'' ''issues.list'' \<noteq> callableName ''git_hub'' ''issues.1ist''"
  using
    callableName_injective_dot_free
      [of "''git-hub''" "''git_hub''" "''issues.list all''" "''issues.list-all''"]
    callableName_injective_dot_free
      [of "''git-hub''" "''git_hub''" "''issues.list''" "''issues.1ist''"]
  by code_simp

text \<open>
  A collision between two pairs whose sanitized forms differ, in the identifiers and in
  the raw names, sanitized whole or flattened, and in the joined names: the joined
  names of (\<open>a.1\<close>, \<open>c\<close>) and (\<open>a\<close>, \<open>_1_c\<close>) are split at every dot, also at the
  one of the identifier \<open>a.1\<close>, and both pairs get the qualified name \<open>a._1_c\<close>.
\<close>

theorem callableName_collision:
  "(''a.1'', ''c'') \<noteq> (''a'', ''_1_c'')
   \<and> sanitize ''a.1'' \<noteq> sanitize ''a''
   \<and> sanitize ''c'' \<noteq> sanitize ''_1_c''
   \<and> flatName ''c'' \<noteq> flatName ''_1_c''
   \<and> sanitize (fullName ''a.1'' ''c'') \<noteq> sanitize (fullName ''a'' ''_1_c'')
   \<and> callableName ''a.1'' ''c'' = ''a._1_c''
   \<and> callableName ''a'' ''_1_c'' = ''a._1_c''"
  by code_simp

text \<open>
  The condition on the identifiers cannot be dropped for any identifier: every pair
  whose identifier has a dot shares its qualified name with a pair whose identifier
  has none and another sanitized form.
\<close>

lemma prefixLeadingDigit_no_digit:
  "prefixLeadingDigit s \<noteq> [] \<Longrightarrow> \<not> isDigit (hd (prefixLeadingDigit s))"
  by (cases s) (auto simp: prefixLeadingDigit_def not_isDigit_underscore)

lemma sanitize_no_digit: "sanitize s \<noteq> [] \<Longrightarrow> \<not> isDigit (hd (sanitize s))"
  unfolding sanitize_def by (rule prefixLeadingDigit_no_digit)

lemma sanitize_fixed:
  assumes "\<forall>c \<in> set s. isWordChar c" and "s \<noteq> [] \<Longrightarrow> \<not> isDigit (hd s)"
  shows "sanitize s = s"
  using assms by (cases s) (auto simp: sanitize_def replaceNonWord_fixed prefixLeadingDigit_def)

lemma join_word:
  "\<forall>p \<in> set ps. \<forall>c \<in> set p. isWordChar c \<Longrightarrow> \<forall>c \<in> set (join ''_'' ps). isWordChar c"
  by (induction "''_''" ps rule: join.induct) (auto simp: isWordChar_underscore)

lemma join_no_digit:
  assumes "\<forall>p \<in> set ps. p \<noteq> [] \<longrightarrow> \<not> isDigit (hd p)" and "join ''_'' ps \<noteq> []"
  shows "\<not> isDigit (hd (join ''_'' ps))"
proof (cases ps)
  case Nil
  with assms show ?thesis by simp
next
  case (Cons p qs)
  with assms show ?thesis
    by (cases qs; cases p) (auto simp: not_isDigit_underscore)
qed

lemma flatName_fixed: "sanitize (flatName m) = flatName m"
proof -
  let ?ps = "map sanitize (split CHR ''.'' m)"
  have w: "\<forall>p \<in> set ?ps. \<forall>c \<in> set p. isWordChar c"
    using sanitize_word by auto
  have d: "\<forall>p \<in> set ?ps. p \<noteq> [] \<longrightarrow> \<not> isDigit (hd p)"
    using sanitize_no_digit by auto
  show ?thesis
    unfolding flatName_def
  proof (rule sanitize_fixed)
    show "\<forall>c \<in> set (join ''_'' ?ps). isWordChar c"
      by (rule join_word [OF w])
    show "\<not> isDigit (hd (join ''_'' ?ps))" if "join ''_'' ?ps \<noteq> []"
      by (rule join_no_digit [OF d that])
  qed
qed

lemma flatName_no_dot: "CHR ''.'' \<notin> set (flatName m)"
  using flatName_fixed [of m] sanitize_no_dot [of "flatName m"] by simp

lemma flatName_idempotent: "flatName (flatName m) = flatName m"
  using flatName_no_dot [of m] by (simp add: flatName_def [of "flatName m"] split_no_sep flatName_fixed)

lemma length_sanitize:
  "length (sanitize s) =
     length s + (if s \<noteq> [] \<and> isDigit (hd (replaceNonWord s)) then 1 else 0)"
  by (cases s) (auto simp: sanitize_def prefixLeadingDigit_def replaceNonWord_def)

lemma sanitize_prefix_differs: "sanitize (x @ ''.'' @ y) \<noteq> sanitize x"
proof
  assume "sanitize (x @ ''.'' @ y) = sanitize x"
  then have "length (sanitize (x @ ''.'' @ y)) = length (sanitize x)" by simp
  then show False
    by (cases x) (auto simp: length_sanitize replaceNonWord_def not_isDigit_underscore
        split: if_splits)
qed

lemma callableName_dotted_backend_collides:
  assumes "CHR ''.'' \<in> set b"
  shows "\<exists>b' n'. CHR ''.'' \<notin> set b' \<and> sanitize b' \<noteq> sanitize b
           \<and> callableName b' n' = callableName b n"
proof -
  from assms obtain x y where b: "b = x @ ''.'' @ y" and x: "CHR ''.'' \<notin> set x"
    by (auto dest: split_list_first)
  have "callableName x (flatName (y @ ''.'' @ n)) = callableName b n"
    using x by (simp add: b callableName_dotted_backend callableName_dot_free_backend
        flatName_idempotent del: append.simps)
  moreover have "sanitize x \<noteq> sanitize b"
    using sanitize_prefix_differs [of x y] by (simp add: b)
  ultimately show ?thesis using x by blast
qed

text \<open>
  The sanitized form of a raw name in the statement above is the flattened name, not
  the name sanitized whole: under one backend the raw names \<open>a.1\<close> and \<open>a__1\<close>
  are sanitized to \<open>a_1\<close> and \<open>a__1\<close>, and both are flattened to \<open>a__1\<close>, since the
  piece \<open>1\<close> is sanitized on its own and gets its underscore prefix.
\<close>

lemma callableName_flattening:
  "sanitize ''a.1'' \<noteq> sanitize ''a__1''
   \<and> flatName ''a.1'' = flatName ''a__1''
   \<and> callableName ''s'' ''a.1'' = callableName ''s'' ''a__1''"
  by code_simp

section \<open>Properties of placeholder expansion\<close>

lemma matchPlaceholder_found:
  assumes "v \<noteq> []" and "CHR ''}'' \<notin> set v"
  shows "matchPlaceholder (''${'' @ v @ ''}'' @ post) = Some (v, post)"
proof -
  have "takeWhile (\<lambda>c. c \<noteq> CHR ''}'') (v @ CHR ''}'' # post) = v"
    using assms(2) by (induction v) auto
  moreover have "dropWhile (\<lambda>c. c \<noteq> CHR ''}'') (v @ CHR ''}'' # post) = CHR ''}'' # post"
    using assms(2) by (induction v) auto
  ultimately show ?thesis using assms(1) by (simp add: matchPlaceholder_def)
qed

lemma matchPlaceholder_needs_opener: "take 2 s \<noteq> ''${'' \<Longrightarrow> matchPlaceholder s = None"
  by (cases s; cases "tl s") (auto simp: matchPlaceholder_def)

lemma openEnded_append: "openEnded ys \<Longrightarrow> openEnded (xs @ ys)"
  by (induction xs) auto

lemma matchPlaceholder_Some_append:
  assumes "matchPlaceholder s = Some (v, rest)"
  shows "matchPlaceholder (s @ t) = Some (v, rest @ t) \<and> s = ''${'' @ v @ ''}'' @ rest"
proof -
  from assms obtain r where s: "s = CHR ''$'' # CHR ''{'' # r"
    by (cases s; cases "tl s") (auto simp: matchPlaceholder_def split: if_splits)
  let ?P = "\<lambda>c. c \<noteq> CHR ''}''"
  from assms s have v: "v = takeWhile ?P r" and d: "dropWhile ?P r \<noteq> []"
    and rest: "rest = tl (dropWhile ?P r)" and ne: "v \<noteq> []"
    by (auto simp: matchPlaceholder_def Let_def split: if_splits)
  from d obtain x where x: "x \<in> set r" "\<not> ?P x"
    by (auto simp: dropWhile_eq_Nil_conv)
  then have tw: "takeWhile ?P (r @ t) = takeWhile ?P r"
    and dw: "dropWhile ?P (r @ t) = dropWhile ?P r @ t"
    by (simp_all add: takeWhile_append1 dropWhile_append1)
  from d have hd: "hd (dropWhile ?P r) = CHR ''}''"
    using hd_dropWhile [of ?P r] by simp
  have "r = takeWhile ?P r @ dropWhile ?P r" by simp
  also have "dropWhile ?P r = CHR ''}'' # rest"
    using d hd rest by (cases "dropWhile ?P r") auto
  finally have r: "r = v @ CHR ''}'' # rest" using v by simp
  from s v d rest ne tw dw have "matchPlaceholder (s @ t) = Some (v, rest @ t)"
    by (simp add: matchPlaceholder_def Let_def)
  with s r show ?thesis by simp
qed

lemma matchPlaceholder_None_append:
  assumes "matchPlaceholder s = None" and "\<not> openEnded s" and "s \<noteq> []"
  shows "matchPlaceholder (s @ ''${'' @ t) = None"
proof (cases "take 2 s = ''${''")
  case False
  with assms(3) have "take 2 (s @ ''${'' @ t) \<noteq> ''${''"
    by (cases s; cases "tl s") auto
  then show ?thesis by (rule matchPlaceholder_needs_opener)
next
  case True
  then obtain r where s: "s = CHR ''$'' # CHR ''{'' # r"
    by (cases s; cases "tl s") auto
  let ?P = "\<lambda>c. c \<noteq> CHR ''}''"
  from assms(2) s have closed: "CHR ''}'' \<in> set r" by auto
  then have d: "dropWhile ?P r \<noteq> []" by (auto simp: dropWhile_eq_Nil_conv)
  with assms(1) s have "takeWhile ?P r = []"
    by (auto simp: matchPlaceholder_def Let_def split: if_splits)
  moreover from closed have "takeWhile ?P (r @ ''${'' @ t) = takeWhile ?P r"
    by (intro takeWhile_append1 [of "CHR ''}''"]) auto
  ultimately show ?thesis using s by (simp add: matchPlaceholder_def Let_def)
qed

text \<open>
  The scan of a text that is not open-ended does not reach into a placeholder that
  follows it.
\<close>

lemma expandEnv_append:
  assumes "\<not> openEnded pre"
  shows "expandEnv penv (pre @ ''${'' @ t) = expandEnv penv pre @ expandEnv penv (''${'' @ t)"
  using assms
proof (induction penv pre rule: expandEnv.induct)
  case (1 penv)
  show ?case by (simp add: expandEnv.simps(1))
next
  case (2 penv c cs)
  show ?case
  proof (cases "matchPlaceholder (c # cs)")
    case None
    from "2.prems" have tl: "\<not> openEnded cs" by auto
    from matchPlaceholder_None_append [OF None "2.prems", of t]
    have "expandEnv penv ((c # cs) @ ''${'' @ t) = c # expandEnv penv (cs @ ''${'' @ t)"
      by (simp add: expandEnv.simps(2))
    with "2.IH"(1) [OF None tl] None show ?thesis by (simp add: expandEnv.simps(2))
  next
    case (Some m)
    obtain v rest where m: "m = (v, rest)" by (cases m)
    from matchPlaceholder_Some_append [of "c # cs" v rest "''${'' @ t"] Some m
    have ap: "matchPlaceholder ((c # cs) @ ''${'' @ t) = Some (v, rest @ ''${'' @ t)"
      and str: "c # cs = ''${'' @ v @ ''}'' @ rest" by auto
    have "\<not> openEnded rest"
      using "2.prems" openEnded_append [of rest "''${'' @ v @ ''}''"] str by auto
    from "2.IH"(2) [OF Some m [symmetric] this] Some m ap show ?thesis
      by (simp add: expandEnv.simps(2))
  qed
qed

text \<open>
  Claim C10. In a header or environment value, take a placeholder \<open>${v}\<close> whose variable
  is set, to \<open>x\<close>, the text before it not being open-ended (so that the placeholder is
  not swallowed by an earlier \<open>${\<close>). If \<open>x\<close> is the empty string the placeholder stays
  in the result as it was written; the value is substituted only when it is not
  empty. The text before and the text after are expanded on their own.
\<close>

theorem expandEnv_empty_value:
  assumes "penv v = Some x" and "v \<noteq> []" and "CHR ''}'' \<notin> set v"
    and "\<not> openEnded pre"
  shows "expandEnv penv (pre @ ''${'' @ v @ ''}'' @ post) =
           expandEnv penv pre @ (if x = [] then ''${'' @ v @ ''}'' else x)
           @ expandEnv penv post"
proof -
  have "expandEnv penv (''${'' @ v @ ''}'' @ post) =
          replacement penv v (''${'' @ v @ ''}'') @ expandEnv penv post"
    using matchPlaceholder_found [OF assms(2,3), of post] by (simp add: expandEnv.simps)
  moreover have "replacement penv v (''${'' @ v @ ''}'') =
                   (if x = [] then ''${'' @ v @ ''}'' else x)"
    using assms(1) by (simp add: replacement_def)
  ultimately show ?thesis
    using expandEnv_append [OF assms(4), of penv "v @ ''}'' @ post"] by simp
qed

theorem expandEnv_empty_value_witness:
  "expandEnv [''TOKEN'' \<mapsto> [], ''HOST'' \<mapsto> ''example.org'']
      ''${HOST}/api?key=${TOKEN}&v=1'' = ''example.org/api?key=${TOKEN}&v=1''"
proof -
  let ?penv = "[''TOKEN'' \<mapsto> [], ''HOST'' \<mapsto> ''example.org'']"
  have closed: "\<not> openEnded ''${HOST}/api?key=''"
    by code_simp
  have "expandEnv ?penv (''${HOST}/api?key='' @ ''${'' @ ''TOKEN'' @ ''}'' @ ''&v=1'') =
        expandEnv ?penv ''${HOST}/api?key='' @ ''${'' @ ''TOKEN'' @ ''}''
        @ expandEnv ?penv ''&v=1''"
    using expandEnv_empty_value [of ?penv "''TOKEN''" "[]" "''${HOST}/api?key=''" "''&v=1''"]
      closed
    by simp
  moreover have "expandEnv ?penv ''${HOST}/api?key='' = ''example.org/api?key=''"
    by code_simp
  moreover have "expandEnv ?penv ''&v=1'' = ''&v=1''"
    by code_simp
  ultimately show ?thesis by simp
qed

section \<open>Properties of the signature synthesizer\<close>

lemma mapE_returns_iff:
  "(\<exists>ys. mapE f xs = Inr ys) \<longleftrightarrow> (\<forall>x \<in> set xs. \<exists>y. f x = Inr y)"
  by (induction xs) (auto split: sum.splits)

lemma mapE_error:
  assumes "mapE f xs = Inl e"
  shows "\<exists>x \<in> set xs. f x = Inl e"
  using assms by (induction xs) (auto split: sum.splits)

text \<open>A loop whose steps either return or raise a \<open>TypeError\<close> does the same.\<close>

lemma mapE_cases:
  assumes "\<And>x. x \<in> set xs \<Longrightarrow>
             (P x \<longrightarrow> (\<exists>y. f x = Inr y)) \<and> (\<not> P x \<longrightarrow> (\<exists>m. f x = Inl (TypeError m)))"
  shows "((\<forall>x \<in> set xs. P x) \<longrightarrow> (\<exists>ys. mapE f xs = Inr ys))
       \<and> (\<not> (\<forall>x \<in> set xs. P x) \<longrightarrow> (\<exists>m. mapE f xs = Inl (TypeError m)))"
proof (intro conjI impI)
  assume "\<forall>x \<in> set xs. P x"
  with assms have "\<forall>x \<in> set xs. \<exists>y. f x = Inr y" by blast
  then show "\<exists>ys. mapE f xs = Inr ys" by (simp add: mapE_returns_iff)
next
  assume "\<not> (\<forall>x \<in> set xs. P x)"
  then obtain x where "x \<in> set xs" and "\<not> P x" by blast
  with assms obtain m where "f x = Inl (TypeError m)" by blast
  with \<open>x \<in> set xs\<close> have "\<not> (\<forall>x \<in> set xs. \<exists>y. f x = Inr y)" by force
  then have "\<not> (\<exists>ys. mapE f xs = Inr ys)" by (simp add: mapE_returns_iff)
  then obtain e where e: "mapE f xs = Inl e" by (cases "mapE f xs") auto
  from mapE_error [OF e] obtain y where y: "y \<in> set xs" "f y = Inl e" by auto
  with assms [OF y(1)] have "\<exists>m. e = TypeError m" by (cases "P y") auto
  with e show "\<exists>m. mapE f xs = Inl (TypeError m)" by auto
qed

lemma toStringJS_cases:
  "(stringable v \<longrightarrow> (\<exists>u. toStringJS v = Inr u))
   \<and> (\<not> stringable v \<longrightarrow> (\<exists>m. toStringJS v = Inl (TypeError m)))"
proof (induction v rule: toStringJS.induct)
  case (6 vs)
  let ?f = "\<lambda>v. if v = JUndefined \<or> v = JNull then Inr [] else toStringJS v"
  have "(stringable v \<longrightarrow> (\<exists>u. ?f v = Inr u))
      \<and> (\<not> stringable v \<longrightarrow> (\<exists>m. ?f v = Inl (TypeError m)))"
    if "v \<in> set vs" for v
  proof (cases "v = JUndefined \<or> v = JNull")
    case True
    then show ?thesis by auto
  next
    case False
    with "6.IH" [OF that] show ?thesis by simp
  qed
  from mapE_cases [of vs stringable ?f, OF this] show ?case
    by (auto split: sum.splits)
qed simp_all

lemma joinJS_cases:
  "((\<forall>v \<in> set vs. stringable v) \<longrightarrow> (\<exists>u. joinJS sep vs = Inr u))
   \<and> (\<not> (\<forall>v \<in> set vs. stringable v) \<longrightarrow> (\<exists>m. joinJS sep vs = Inl (TypeError m)))"
proof -
  let ?f = "\<lambda>v. if v = JUndefined \<or> v = JNull then Inr [] else toStringJS v"
  have "(stringable v \<longrightarrow> (\<exists>u. ?f v = Inr u))
      \<and> (\<not> stringable v \<longrightarrow> (\<exists>m. ?f v = Inl (TypeError m)))" for v
    using toStringJS_cases [of v] by (cases "v = JUndefined \<or> v = JNull") auto
  from mapE_cases [of vs stringable ?f, OF this] show ?thesis
    by (auto simp: joinJS_def split: sum.splits)
qed

lemma stringable_enumLiteral: "stringable (enumLiteral v) = stringable v"
  by (cases v) (auto simp: enumLiteral_def)

lemma lookupType_cases:
  "(stringable ty \<longrightarrow> (\<exists>t. lookupType ty = Inr t))
   \<and> (\<not> stringable ty \<longrightarrow> (\<exists>m. lookupType ty = Inl (TypeError m)))"
  using toStringJS_cases [of ty] by (auto simp: lookupType_def split: option.splits)

lemma includesJS_cases:
  "(requiredOk r \<longrightarrow> (\<exists>b. includesJS r k = Inr b))
   \<and> (\<not> requiredOk r \<longrightarrow> (\<exists>m. includesJS r k = Inl (TypeError m)))"
  by (cases r) (auto simp: requiredOk_def)

lemma objectEntries_truthy: "truthy p \<Longrightarrow> \<exists>props. objectEntries p = Inr props"
  by (cases p) auto

text \<open>
  \<open>toType\<close> returns on the schemas that are safe at its depth and raises a \<open>TypeError\<close>
  on the others.
\<close>

lemma toType_cases:
  "(safe s d \<longrightarrow> (\<exists>t. toType s d = Inr t))
   \<and> (\<not> safe s d \<longrightarrow> (\<exists>m. toType s d = Inl (TypeError m)))"
proof (induction s d rule: toType.induct)
  case (1 s d)
  show ?case
  proof (cases "truthy s")
    case False
    then show ?thesis by (simp add: toType.simps [of s d] safe.simps [of s d])
  next
    case ts: True
    show ?thesis
    proof (cases "truthy (getProp s ''enum'')")
      case True
      show ?thesis
      proof (cases "getProp s ''enum''")
        case (JArr vs)
        with ts True joinJS_cases [of "map enumLiteral vs" "'' | ''"] show ?thesis
          by (auto simp: toType.simps [of s d] safe.simps [of s d] stringable_enumLiteral
              split: sum.splits)
      qed (use ts True in \<open>auto simp: toType.simps [of s d] safe.simps [of s d]\<close>)
    next
      case te: False
      show ?thesis
      proof (cases "getProp s ''type'' = JStr ''array''")
        case ta: True
        show ?thesis
        proof (cases "truthy (getProp s ''items'')")
          case True
          with "1.IH"(1) [OF _ te ta True] ts te ta show ?thesis
            by (auto simp: toType.simps [of s d] safe.simps [of s d] split: sum.splits)
        next
          case False
          with ts te ta show ?thesis
            by (simp add: toType.simps [of s d] safe.simps [of s d])
        qed
      next
        case na: False
        show ?thesis
        proof (cases "getProp s ''type'' = JStr ''object''")
          case False
          with ts te na lookupType_cases [of "getProp s ''type''"] show ?thesis
            by (auto simp: toType.simps [of s d] safe.simps [of s d])
        next
          case to: True
          show ?thesis
          proof (cases "\<not> truthy (getProp s ''properties'') \<or> d > 2")
            case True
            with ts te na to show ?thesis
              by (auto simp: toType.simps [of s d] safe.simps [of s d])
          next
            case deep: False
            then obtain props where ps: "objectEntries (getProp s ''properties'') = Inr props"
              using objectEntries_truthy by blast
            define f where "f = (\<lambda>kv. case includesJS (getProp s ''required'') (fst kv) of
                          Inl e \<Rightarrow> Inl e
                        | Inr req \<Rightarrow>
                            (case toType (snd kv) (d + 1) of
                               Inl e \<Rightarrow> Inl e
                             | Inr t \<Rightarrow>
                                 Inr (fst kv @ (if req then [] else ''?'') @ '': '' @ render t)))"
            define P :: "string \<times> jsval \<Rightarrow> bool" where
              "P = (\<lambda>kv. requiredOk (getProp s ''required'') \<and> safe (snd kv) (d + 1))"
            have step: "(P kv \<longrightarrow> (\<exists>y. f kv = Inr y))
                \<and> (\<not> P kv \<longrightarrow> (\<exists>m. f kv = Inl (TypeError m)))"
              if kv: "kv \<in> set props" for kv
            proof (cases "requiredOk (getProp s ''required'')")
              case False
              with includesJS_cases [of "getProp s ''required''" "fst kv"] show ?thesis
                by (auto simp: f_def P_def)
            next
              case True
              with includesJS_cases [of "getProp s ''required''" "fst kv"]
              obtain req where r: "includesJS (getProp s ''required'') (fst kv) = Inr req"
                by blast
              from "1.IH"(2) [OF _ te na to deep ps kv r] ts True r show ?thesis
                by (auto simp: f_def P_def)
            qed
            have toType_eq: "toType s d =
                (case mapE f props of Inl e \<Rightarrow> Inl e
                 | Inr ls \<Rightarrow> Inr (Text (''{ '' @ join ''; '' ls @ '' }'')))"
              using ts te na to deep ps by (simp add: toType.simps [of s d] f_def)
            have "safe s d = (props = [] \<or> (requiredOk (getProp s ''required'')
                \<and> (\<forall>kv \<in> set props. safe (snd kv) (d + 1))))"
              using ts te na to deep ps by (simp add: safe.simps [of s d])
            also have "\<dots> = (props = [] \<or> (\<forall>kv \<in> set props. P kv))"
              unfolding P_def by (cases props) auto
            finally have safe_eq: "safe s d = (props = [] \<or> (\<forall>kv \<in> set props. P kv))" .
            have "(props = [] \<or> (\<forall>kv \<in> set props. P kv)) = (\<forall>kv \<in> set props. P kv)"
              by auto
            with mapE_cases [of props P f, OF step] toType_eq safe_eq show ?thesis
              by (auto split: sum.splits)
          qed
        qed
      qed
    qed
  qed
qed

lemma primitive_not_inherited:
  "k \<in> set objectPrototypeKeys \<Longrightarrow> map_of primitiveTypes k = None"
  by (auto simp: objectPrototypeKeys_def primitiveTypes_def)

lemma toType_Inherited:
  "(\<exists>k. toType s d = Inr (Inherited k)) \<longleftrightarrow>
     (\<exists>t. toType s d = Inr t) \<and> namesInherited s"
proof (cases "truthy s \<and> \<not> truthy (getProp s ''enum'')
    \<and> getProp s ''type'' \<noteq> JStr ''array'' \<and> getProp s ''type'' \<noteq> JStr ''object''")
  case True
  then have "toType s d = lookupType (getProp s ''type'')"
    by (simp add: toType.simps [of s d])
  with True show ?thesis
    by (auto simp: namesInherited_def lookupType_def primitive_not_inherited
        split: sum.splits option.splits)
next
  case False
  then have "\<not> namesInherited s \<or> getProp s ''type'' = JStr ''array''
      \<or> getProp s ''type'' = JStr ''object''"
    by (auto simp: namesInherited_def)
  moreover have "\<not> namesInherited s"
    if "getProp s ''type'' = JStr ''array'' \<or> getProp s ''type'' = JStr ''object''"
    using that by (auto simp: namesInherited_def objectPrototypeKeys_def)
  ultimately have ni: "\<not> namesInherited s" by blast
  have "toType s d \<noteq> Inr (Inherited k)" for k
    using False
    by (auto simp: toType.simps [of s d] split: jsval.splits sum.splits if_splits)
  with ni show ?thesis by auto
qed

text \<open>
  Claim C3, as amended. \<open>toType\<close> terminates on every schema value and at every depth.
  It returns without raising exactly on the values that are safe at that depth (along
  the nodes it visits, a truthy \<open>enum\<close> is an array whose elements convert to strings, a
  \<open>required\<close> that is consulted is missing, \<open>null\<close>, a string or an array, and a
  \<open>type\<close> that reaches the table of primitive types converts to a string); on every
  other value it raises a \<open>TypeError\<close>. What it returns is a string, unless the node
  reaches that table with a \<open>type\<close> that names a member inherited from
  \<open>Object.prototype\<close> (then that member is returned, and a template literal prints it).
\<close>

theorem toType_returns_iff_safe:
  "(safe s d \<longrightarrow>
      (\<exists>t. toType s d = Inr t \<and> ((\<exists>x. t = Text x) \<longleftrightarrow> \<not> namesInherited s)))
   \<and> (\<not> safe s d \<longrightarrow> (\<exists>m. toType s d = Inl (TypeError m)))"
proof (intro conjI impI)
  assume "safe s d"
  with toType_cases [of s d] obtain t where t: "toType s d = Inr t" by blast
  have "(\<exists>x. t = Text x) \<longleftrightarrow> \<not> (\<exists>k. t = Inherited k)"
    by (cases t) auto
  with t toType_Inherited [of s d] show
    "\<exists>t. toType s d = Inr t \<and> ((\<exists>x. t = Text x) \<longleftrightarrow> \<not> namesInherited s)"
    by auto
next
  assume "\<not> safe s d"
  with toType_cases [of s d] show "\<exists>m. toType s d = Inl (TypeError m)" by blast
qed

theorem toType_returns_iff_safe_witness:
  "safe (JObj [(''type'', JStr ''object''),
               (''properties'', JObj [(''n'', JObj [(''type'', JStr ''number'')])]),
               (''required'', JArr [JStr ''n''])]) 0
   \<and> (\<exists>x. toType (JObj [(''type'', JStr ''object''),
               (''properties'', JObj [(''n'', JObj [(''type'', JStr ''number'')])]),
               (''required'', JArr [JStr ''n''])]) 0 = Inr (Text x))
   \<and> \<not> safe (JObj [(''type'', JObj [(''toString'', JNum ''1'')])]) 0
   \<and> (\<exists>m. toType (JObj [(''type'', JObj [(''toString'', JNum ''1'')])]) 0 = Inl (TypeError m))
   \<and> safe (JObj [(''type'', JStr ''object''), (''properties'', JObj [(''a'', JObj [])]),
                  (''required'', JBool True)]) 3
   \<and> (\<exists>x. toType (JObj [(''type'', JStr ''object''), (''properties'', JObj [(''a'', JObj [])]),
                  (''required'', JBool True)]) 3 = Inr (Text x))"
proof -
  let ?s = "JObj [(''type'', JStr ''object''),
                  (''properties'', JObj [(''n'', JObj [(''type'', JStr ''number'')])]),
                  (''required'', JArr [JStr ''n''])]"
  let ?u = "JObj [(''type'', JObj [(''toString'', JNum ''1'')])]"
  let ?r = "JObj [(''type'', JStr ''object''), (''properties'', JObj [(''a'', JObj [])]),
                  (''required'', JBool True)]"
  have s: "safe ?s 0" by code_simp
  have ns: "\<not> namesInherited ?s" by code_simp
  have u: "\<not> safe ?u 0" by code_simp
  have r: "safe ?r 3" by code_simp
  have nr: "\<not> namesInherited ?r" by code_simp
  from toType_returns_iff_safe [of ?s 0] s ns
  have 1: "\<exists>x. toType ?s 0 = Inr (Text x)" by blast
  from toType_returns_iff_safe [of ?u 0] u
  have 2: "\<exists>m. toType ?u 0 = Inl (TypeError m)" by blast
  from toType_returns_iff_safe [of ?r 3] r nr
  have 3: "\<exists>x. toType ?r 3 = Inr (Text x)" by blast
  from s u r 1 2 3 show ?thesis by blast
qed

text \<open>
  The synthesizer raises on a schema whose \<open>enum\<close> is a string (it has no \<open>map\<close>), on
  an object schema with a property and a \<open>required\<close> that is a boolean (it has no
  \<open>includes\<close>), and on an \<open>enum\<close> that holds an object with a property \<open>toString\<close>
  (\<open>join\<close> cannot convert it to a string).
\<close>

theorem toType_raises_on_malformed:
  "toType (JObj [(''type'', JStr ''string''), (''enum'', JStr ''fast'')]) 0 =
     Inl (TypeError ''s.enum.map is not a function'')
   \<and> toType (JObj [(''type'', JStr ''object''), (''properties'', JObj [(''a'', JObj [])]),
                  (''required'', JBool True)]) 0 =
     Inl (TypeError ''s.required?.includes is not a function'')
   \<and> toType (JObj [(''enum'', JArr [JObj [(''toString'', JNum ''1'')]])]) 0 =
     Inl (TypeError ''Cannot convert object to primitive value'')"
  by code_simp

section \<open>Properties of the backend connector\<close>

lemma closeCount_append [simp]: "closeCount (xs @ ys) = closeCount xs + closeCount ys"
  by (simp add: closeCount_def)

lemma closeCount_requests [simp]: "closeCount (map (Request nm) rs) = 0"
  by (induction rs) (auto simp: closeCount_def)

text \<open>
  Claim C4. Every call of the connector that gets as far as creating its session
  closes it exactly once, and the close is the last thing the call does before it
  returns or raises: whether the handshake failed, the callback failed or the callback
  returned (the statement holds for every behaviour of the backend and every callback).
  Where \<open>new URL\<close> rejects the address no session was created, and the call raises
  without anything to close.
\<close>

theorem getClient_closes_once:
  "(newTransport w (expand (processEnv w) c) = Inr t \<longrightarrow>
      closeCount (snd (getClient w c nm cb tr)) = Suc (closeCount tr)
      \<and> last (snd (getClient w c nm cb tr)) = Close nm)
   \<and> (newTransport w (expand (processEnv w) c) = Inl e \<longrightarrow>
      getClient w c nm cb tr = (Inl e, tr))"
  by (auto simp: getClient_def closeClient_def Let_def closeCount_def split: option.splits)

theorem getClient_closes_once_witness:
  "closeCount (snd (getClient exampleWorld (httpServer ''http://x.example/mcp'') ''X''
       (\<lambda>b. ([ToolsList], listTools b)) [])) = 1
   \<and> fst (getClient exampleWorld (httpServer ''http://x.example/mcp'') ''X''
       (\<lambda>b. ([ToolsList], listTools b)) []) = listTools echoBackend
   \<and> closeCount (snd (getClient exampleWorld (httpServer ''http://x.example/mcp'') ''X''
       (\<lambda>b. ([ToolsCall ''boom'' JNull], callTool b ''boom'' JNull)) [])) = 1
   \<and> fst (getClient exampleWorld (httpServer ''http://x.example/mcp'') ''X''
       (\<lambda>b. ([ToolsCall ''boom'' JNull], callTool b ''boom'' JNull)) []) =
       Inl (McpError ''Unknown tool'')
   \<and> closeCount (snd (getClient exampleWorld (stdioServer ''y-server'') ''Y''
       (\<lambda>b. ([ToolsList], listTools b)) [])) = 1
   \<and> getClient exampleWorld (httpServer ''ftp:'') ''Z'' (\<lambda>b. ([ToolsList], listTools b)) [] =
       (Inl (TypeError ''Invalid URL''), [])"
  using
    getClient_closes_once [of exampleWorld "httpServer ''http://x.example/mcp''"
      "StreamableHTTP ''http://x.example/mcp'' None" "''X''"
      "(\<lambda>b. ([ToolsList], listTools b))" "[]"]
    getClient_closes_once [of exampleWorld "httpServer ''http://x.example/mcp''"
      "StreamableHTTP ''http://x.example/mcp'' None" "''X''"
      "(\<lambda>b. ([ToolsCall ''boom'' JNull], callTool b ''boom'' JNull))" "[]"]
    getClient_closes_once [of exampleWorld "stdioServer ''y-server''"
      "Stdio (Some ''y-server'') [] [(''NODE_NO_WARNINGS'', ''1'')]" "''Y''"
      "(\<lambda>b. ([ToolsList], listTools b))" "[]"]
    getClient_closes_once [where w = exampleWorld and c = "httpServer ''ftp:''"
      and e = "TypeError ''Invalid URL''" and nm = "''Z''"
      and cb = "(\<lambda>b. ([ToolsList], listTools b))" and tr = "[]"]
  by (simp add: exampleWorld_def httpServer_def stdioServer_def newTransport_def expand_def
      getClient_def closeClient_def echoBackend_def unreachable_def closeCount_def)

section \<open>Properties of the invocation router\<close>



text \<open>
  Claim C7. Let an invocation succeed: the entry is in the registry, the session is set
  up and connects, the backend answers the call with a result, the session closes.
  When the result has a structured payload it is what \<open>executeTool\<close> returns, whatever
  the unstructured content is; when it has none, the unstructured content is returned.
\<close>

theorem executeTool_payload:
  assumes "find (\<lambda>e. serverName e = sname \<and> name (tool e) = tname) (toolRegistry st)
             = Some entry"
    and "newTransport w (expand (processEnv w) (cfg entry)) = Inr t"
    and "connectError (network w t) = None"
    and "callTool (network w t) tname arguments = Inr result"
    and "closeError (network w t) = None"
  shows "(structuredContent result = Some obj \<longrightarrow>
            fst (executeTool w st sname tname arguments tr) = Inr (JObj obj))
       \<and> (structuredContent result = None \<longrightarrow>
            fst (executeTool w st sname tname arguments tr) = Inr (content result))"
  using assms
  by (simp add: executeTool_def getClient_def closeClient_def orElse_def Let_def)

theorem executeTool_payload_witness:
  "fst (executeTool exampleWorld exampleState ''X'' ''echo'' (JStr ''hi'') []) =
     Inr (JObj [(''echoed'', JStr ''hi'')])
   \<and> fst (executeTool exampleWorld exampleState ''X'' ''plain'' (JStr ''hi'') []) =
     Inr (JArr [JStr ''hi''])"
proof -
  let ?x = "httpServer ''http://x.example/mcp''"
  let ?t = "StreamableHTTP ''http://x.example/mcp'' None"
  let ?echo = "\<lparr>serverName = ''X'', cfg = ?x,
     tool = \<lparr>name = ''echo'', description = Some ''Echo'', inputSchema = objectSchema\<rparr>\<rparr>"
  let ?plain = "\<lparr>serverName = ''X'', cfg = ?x,
     tool = \<lparr>name = ''plain'', description = None, inputSchema = objectSchema\<rparr>\<rparr>"
  have found_echo:
    "find (\<lambda>e. serverName e = ''X'' \<and> name (tool e) = ''echo'') (toolRegistry exampleState)
       = Some ?echo"
    by (simp add: exampleState_def emptyState_def)
  have found_plain:
    "find (\<lambda>e. serverName e = ''X'' \<and> name (tool e) = ''plain'') (toolRegistry exampleState)
       = Some ?plain"
    by (simp add: exampleState_def emptyState_def)
  have transport_echo:
    "newTransport exampleWorld (expand (processEnv exampleWorld) (cfg ?echo)) = Inr ?t"
    by (simp add: exampleWorld_def httpServer_def newTransport_def expand_def)
  have transport_plain:
    "newTransport exampleWorld (expand (processEnv exampleWorld) (cfg ?plain)) = Inr ?t"
    by (simp add: exampleWorld_def httpServer_def newTransport_def expand_def)
  have connects: "connectError (network exampleWorld ?t) = None"
    by (simp add: exampleWorld_def echoBackend_def)
  have closes: "closeError (network exampleWorld ?t) = None"
    by (simp add: exampleWorld_def echoBackend_def)
  have echo: "callTool (network exampleWorld ?t) ''echo'' (JStr ''hi'') =
      Inr \<lparr>structuredContent = Some [(''echoed'', JStr ''hi'')],
           content = JArr [JObj [(''type'', JStr ''text'')]]\<rparr>"
    by (simp add: exampleWorld_def echoBackend_def)
  have plain: "callTool (network exampleWorld ?t) ''plain'' (JStr ''hi'') =
      Inr \<lparr>structuredContent = None, content = JArr [JStr ''hi'']\<rparr>"
    by (simp add: exampleWorld_def echoBackend_def)
  from executeTool_payload [OF found_echo transport_echo connects echo closes,
      of "[(''echoed'', JStr ''hi'')]" "[]"]
    executeTool_payload [OF found_plain transport_plain connects plain closes, of _ "[]"]
  show ?thesis by simp
qed

section \<open>Properties of the catalog aggregator\<close>

text \<open>
  Claim C5. If the backend's config has an \<open>allow\<close> list, the filtered tools are
  exactly the tools whose names are in it, whatever \<open>deny\<close> says; if \<open>allow\<close> is
  absent and \<open>deny\<close> is present, they are exactly the tools whose names are not in
  \<open>deny\<close>; if both are absent (or there is no \<open>codemode\<close> section), every tool
  passes.
\<close>

theorem filterTools_allow_deny:
  "(codemode c = Some m \<and> allow m = Some a \<longrightarrow>
      filterTools c ts = filter (\<lambda>t. name t \<in> set a) ts)
   \<and> (codemode c = Some m \<and> allow m = None \<and> deny m = Some d \<longrightarrow>
      filterTools c ts = filter (\<lambda>t. name t \<notin> set d) ts)
   \<and> (codemode c = None \<or> (codemode c = Some m \<and> allow m = None \<and> deny m = None) \<longrightarrow>
      filterTools c ts = ts)"
  by (auto simp: filterTools_def allowOf_def denyOf_def optIncludes_def)

theorem filterTools_allow_deny_witness:
  "map name (filterTools
      ((stdioServer ''s'')\<lparr>codemode := Some \<lparr>allow = Some [''a'', ''c''], deny = Some [''a'']\<rparr>\<rparr>)
      [\<lparr>name = ''a'', description = None, inputSchema = JUndefined\<rparr>,
       \<lparr>name = ''b'', description = None, inputSchema = JUndefined\<rparr>,
       \<lparr>name = ''c'', description = None, inputSchema = JUndefined\<rparr>]) = [''a'', ''c'']
   \<and> map name (filterTools
      ((stdioServer ''s'')\<lparr>codemode := Some \<lparr>allow = None, deny = Some [''b'']\<rparr>\<rparr>)
      [\<lparr>name = ''a'', description = None, inputSchema = JUndefined\<rparr>,
       \<lparr>name = ''b'', description = None, inputSchema = JUndefined\<rparr>,
       \<lparr>name = ''c'', description = None, inputSchema = JUndefined\<rparr>]) = [''a'', ''c'']
   \<and> map name (filterTools (stdioServer ''s'')
      [\<lparr>name = ''a'', description = None, inputSchema = JUndefined\<rparr>,
       \<lparr>name = ''b'', description = None, inputSchema = JUndefined\<rparr>]) = [''a'', ''b'']"
  using
    filterTools_allow_deny
      [of "(stdioServer ''s'')\<lparr>codemode := Some \<lparr>allow = Some [''a'', ''c''], deny = Some [''a'']\<rparr>\<rparr>"
          "\<lparr>allow = Some [''a'', ''c''], deny = Some [''a'']\<rparr>" "[''a'', ''c'']"
          "[\<lparr>name = ''a'', description = None, inputSchema = JUndefined\<rparr>,
            \<lparr>name = ''b'', description = None, inputSchema = JUndefined\<rparr>,
            \<lparr>name = ''c'', description = None, inputSchema = JUndefined\<rparr>]"]
    filterTools_allow_deny
      [of "(stdioServer ''s'')\<lparr>codemode := Some \<lparr>allow = None, deny = Some [''b'']\<rparr>\<rparr>"
          "\<lparr>allow = None, deny = Some [''b'']\<rparr>" _
          "[\<lparr>name = ''a'', description = None, inputSchema = JUndefined\<rparr>,
            \<lparr>name = ''b'', description = None, inputSchema = JUndefined\<rparr>,
            \<lparr>name = ''c'', description = None, inputSchema = JUndefined\<rparr>]" "[''b'']"]
    filterTools_allow_deny
      [of "stdioServer ''s''" _ _
          "[\<lparr>name = ''a'', description = None, inputSchema = JUndefined\<rparr>,
            \<lparr>name = ''b'', description = None, inputSchema = JUndefined\<rparr>]"]
  by (simp add: stdioServer_def)

text \<open>Assignments on property lists.\<close>

lemma map_of_setProp: "map_of (setProp k v kvs) = (map_of kvs)(k \<mapsto> v)"
  by (induction kvs) (auto simp: fun_eq_iff)

lemma keys_setProp: "fst ` set (setProp k v kvs) = insert k (fst ` set kvs)"
  by (induction kvs) auto

lemma map_fst_setProp: "map fst (setProp k v kvs) = insertKey k (map fst kvs)"
  by (induction kvs) (auto simp: insertKey_def)

text \<open>One assignment: it raises exactly when it is blocked, and is recorded otherwise.\<close>

lemma setMember_tracked:
  assumes "tracks out seen"
  shows "if blocked seen (ns, k)
         then \<exists>m. setMember k fn (case map_of out ns of Some d \<Rightarrow> d | None \<Rightarrow> Namespace [] None)
                    = Inl (TypeError m)
         else \<exists>d. setMember k fn (case map_of out ns of Some d \<Rightarrow> d | None \<Rightarrow> Namespace [] None)
                    = Inr d
                  \<and> tracks (setProp ns d out) ((ns, k) # seen)"
proof (cases "map_of out ns")
  case None
  with assms have fresh: "\<forall>k. (ns, k) \<notin> set seen"
    by (auto simp: tracks_def split: option.splits dest: spec [of _ ns])
  then have nb: "\<not> blocked seen (ns, k)" by (simp add: blocked_def)
  let ?d = "if k = ''__proto__'' then Namespace [] (Some fn) else Namespace [(k, fn)] None"
  have sm: "setMember k fn (Namespace [] None) = Inr ?d"
    by (simp add: setMember_def)
  have "tracks (setProp ns ?d out) ((ns, k) # seen)"
    unfolding tracks_def
  proof
    fix ns'
    show "case map_of (setProp ns ?d out) ns' of
        None \<Rightarrow> (\<forall>k'. (ns', k') \<notin> set ((ns, k) # seen))
      | Some (Namespace ms proto) \<Rightarrow>
          (\<forall>k'. k' \<in> fst ` set ms \<longleftrightarrow> (ns', k') \<in> set ((ns, k) # seen) \<and> k' \<noteq> ''__proto__'')
          \<and> (proto \<noteq> None \<longleftrightarrow> (ns', ''__proto__'') \<in> set ((ns, k) # seen))
      | Some (Fn f ms proto) \<Rightarrow> False"
    proof (cases "ns' = ns")
      case True
      with fresh show ?thesis by (auto simp: map_of_setProp)
    next
      case False
      with assms [unfolded tracks_def, THEN spec, of ns'] show ?thesis
        by (auto simp: map_of_setProp split: option.splits dispatch.splits)
    qed
  qed
  with None nb sm show ?thesis by auto
next
  case (Some d0)
  with assms obtain ms proto where d0: "d0 = Namespace ms proto"
    and own: "\<forall>k'. k' \<in> fst ` set ms \<longleftrightarrow> (ns, k') \<in> set seen \<and> k' \<noteq> ''__proto__''"
    and pr: "proto \<noteq> None \<longleftrightarrow> (ns, ''__proto__'') \<in> set seen"
    using assms [unfolded tracks_def, THEN spec, of ns] by (cases d0) auto
  have np: "''__proto__'' \<notin> set restrictedNames" by (simp add: restrictedNames_def)
  show ?thesis
  proof (cases "blocked seen (ns, k)")
    case True
    then have "k \<in> set restrictedNames" "(ns, ''__proto__'') \<in> set seen" "(ns, k) \<notin> set seen"
      by (auto simp: blocked_def)
    with own pr np have "k \<noteq> ''__proto__''" "k \<notin> fst ` set ms" "proto \<noteq> None" by auto
    with \<open>k \<in> set restrictedNames\<close> have "\<exists>m. setMember k fn (Namespace ms proto) = Inl (TypeError m)"
      by (simp add: setMember_def)
    with True Some d0 show ?thesis by simp
  next
    case False
    let ?d = "if k = ''__proto__'' then Namespace ms (Some fn)
              else Namespace (setProp k fn ms) proto"
    have "\<not> (k \<noteq> ''__proto__'' \<and> k \<notin> fst ` set ms \<and> proto \<noteq> None \<and> k \<in> set restrictedNames)"
      using False own pr by (auto simp: blocked_def)
    then have sm: "setMember k fn (Namespace ms proto) = Inr ?d"
      by (auto simp: setMember_def)
    have "tracks (setProp ns ?d out) ((ns, k) # seen)"
      unfolding tracks_def
    proof
      fix ns'
      show "case map_of (setProp ns ?d out) ns' of
          None \<Rightarrow> (\<forall>k'. (ns', k') \<notin> set ((ns, k) # seen))
        | Some (Namespace ms proto) \<Rightarrow>
            (\<forall>k'. k' \<in> fst ` set ms \<longleftrightarrow> (ns', k') \<in> set ((ns, k) # seen) \<and> k' \<noteq> ''__proto__'')
            \<and> (proto \<noteq> None \<longleftrightarrow> (ns', ''__proto__'') \<in> set ((ns, k) # seen))
        | Some (Fn f ms proto) \<Rightarrow> False"
      proof (cases "ns' = ns")
        case True
        with own pr show ?thesis by (auto simp: map_of_setProp keys_setProp)
      next
        case False
        with assms [unfolded tracks_def, THEN spec, of ns'] show ?thesis
          by (auto simp: map_of_setProp split: option.splits dispatch.splits)
      qed
    qed
    with False Some d0 sm show ?thesis by auto
  qed
qed

lemma prepareTool_tracked:
  assumes "tracks out seen" and "length (split CHR ''.'' nm) > 1"
    and "fst (dispatchKey nm) \<notin> set objectPrototypeKeys"
  shows "if blocked seen (dispatchKey nm)
         then \<exists>m. prepareTool (nm, fn) out = Some (Inl (TypeError m))
         else \<exists>out'. prepareTool (nm, fn) out = Some (Inr out')
                \<and> tracks out' (dispatchKey nm # seen)"
  using setMember_tracked [OF assms(1), of "namespaceOf (split CHR ''.'' nm)"
      "flatToolOf (split CHR ''.'' nm)" fn] assms(2,3)
  by (auto simp: prepareTool_def dispatchKey_def Let_def split: if_splits)

lemma prepareToolsFrom_tracked:
  assumes "tracks out seen"
    and "\<forall>nm \<in> set (map fst ts). length (split CHR ''.'' nm) > 1
           \<and> fst (dispatchKey nm) \<notin> set objectPrototypeKeys"
  shows "if writesOk seen (map (\<lambda>entry. dispatchKey (fst entry)) ts)
         then \<exists>out'. prepareToolsFrom out ts = Some (Inr out')
         else \<exists>m. prepareToolsFrom out ts = Some (Inl (TypeError m))"
  using assms
proof (induction ts arbitrary: out seen)
  case Nil
  show ?case by simp
next
  case (Cons entry ts)
  obtain nm fn where entry: "entry = (nm, fn)" by (cases entry)
  from Cons.prems(2) entry have dotted: "length (split CHR ''.'' nm) > 1"
    and ns: "fst (dispatchKey nm) \<notin> set objectPrototypeKeys"
    and rest: "\<forall>nm \<in> set (map fst ts). length (split CHR ''.'' nm) > 1
           \<and> fst (dispatchKey nm) \<notin> set objectPrototypeKeys"
    by auto
  show ?case
  proof (cases "blocked seen (dispatchKey nm)")
    case True
    with prepareTool_tracked [OF Cons.prems(1) dotted ns, of fn] entry show ?thesis
      by auto
  next
    case False
    with prepareTool_tracked [OF Cons.prems(1) dotted ns, of fn] obtain out' where
      step: "prepareTool (nm, fn) out = Some (Inr out')"
      and tr: "tracks out' (dispatchKey nm # seen)" by auto
    from Cons.IH [OF tr rest] False step entry show ?thesis by simp
  qed
qed

lemma tracks_empty: "tracks [] []"
  by (simp add: tracks_def)

text \<open>What one tool adds to the registry, to the flat tool list and to the keys of \<open>rawTools\<close>.\<close>

lemma addTool_registry:
  "toolRegistry (fst (addTool n c t acc)) =
     toolRegistry (fst acc) @ [\<lparr>serverName = n, cfg = c, tool = t\<rparr>]"
  by (cases acc) (simp add: addTool_def Let_def)

lemma addTool_toolList:
  "snd (snd (addTool n c t acc)) =
     snd (snd acc) @ [\<lparr>name = fullName n (name t), description = description t,
                       inputSchema = inputSchema t\<rparr>]"
  by (cases acc) (simp add: addTool_def Let_def)

lemma addTool_rawKeys:
  "map fst (fst (snd (addTool n c t acc))) =
     insertKey (fullName n (name t)) (map fst (fst (snd acc)))"
  by (cases acc) (simp add: addTool_def Let_def map_fst_setProp)

lemma fold_addTool:
  "toolRegistry (fst (fold (addTool n c) ts acc)) =
     toolRegistry (fst acc) @ map (\<lambda>t. \<lparr>serverName = n, cfg = c, tool = t\<rparr>) ts
   \<and> snd (snd (fold (addTool n c) ts acc)) =
     snd (snd acc) @ map (\<lambda>t. listed \<lparr>serverName = n, cfg = c, tool = t\<rparr>) ts
   \<and> map fst (fst (snd (fold (addTool n c) ts acc))) =
     fold insertKey (map (\<lambda>t. filedAs \<lparr>serverName = n, cfg = c, tool = t\<rparr>) ts)
       (map fst (fst (snd acc)))"
  by (induction ts arbitrary: acc)
    (simp_all add: addTool_registry addTool_toolList addTool_rawKeys listed_def filedAs_def)

text \<open>A backend that fails is skipped; one that succeeds adds its filtered tools.\<close>

lemma queryBackend_fold:
  "fst (queryBackend w entry acc) =
     fold (addTool (fst entry) (snd entry))
       (if succeeds w (snd entry)
        then filterTools (snd entry) (reportedTools w (snd entry)) else [])
       (fst acc)"
  by (auto simp: queryBackend_def getClient_def closeClient_def succeeds_def reportedTools_def
      Let_def split: sum.splits option.splits prod.splits)

lemma registered_Cons:
  "registered w (entry # bs) =
     (if succeeds w (snd entry) then entriesOf w entry else []) @ registered w bs"
  by (simp add: registered_def)

lemma queryBackend_adds:
  "toolRegistry (fst (fst (queryBackend w entry acc))) =
     toolRegistry (fst (fst acc)) @ (if succeeds w (snd entry) then entriesOf w entry else [])
   \<and> snd (snd (fst (queryBackend w entry acc))) =
     snd (snd (fst acc)) @ map listed (if succeeds w (snd entry) then entriesOf w entry else [])
   \<and> map fst (fst (snd (fst (queryBackend w entry acc)))) =
     fold insertKey (map filedAs (if succeeds w (snd entry) then entriesOf w entry else []))
       (map fst (fst (snd (fst acc))))"
  using fold_addTool [of "fst entry" "snd entry"
      "if succeeds w (snd entry) then filterTools (snd entry) (reportedTools w (snd entry)) else []"
      "fst acc"]
  by (simp add: queryBackend_fold entriesOf_def comp_def)

lemma fold_queryBackend:
  "toolRegistry (fst (fst (fold (queryBackend w) bs acc))) =
     toolRegistry (fst (fst acc)) @ registered w bs
   \<and> snd (snd (fst (fold (queryBackend w) bs acc))) =
     snd (snd (fst acc)) @ map listed (registered w bs)
   \<and> map fst (fst (snd (fst (fold (queryBackend w) bs acc)))) =
     fold insertKey (map filedAs (registered w bs)) (map fst (fst (snd (fst acc))))"
proof (induction bs arbitrary: acc)
  case Nil
  show ?case by (simp add: registered_def)
next
  case (Cons entry bs)
  show ?case
    using Cons [of "queryBackend w entry acc"] queryBackend_adds [of w entry acc]
    by (simp add: registered_Cons)
qed

lemma firstOccurrences_fold: "firstOccurrences xs = fold insertKey xs []"
  by (simp add: firstOccurrences_def)

lemma filedNames_fold: "filedNames w bs = fold insertKey (map filedAs (registered w bs)) []"
  by (simp add: filedNames_def firstOccurrences_fold)

lemma set_fold_insertKey: "set (fold insertKey xs ks) = set xs \<union> set ks"
  by (induction xs arbitrary: ks) (auto simp: insertKey_def)

lemma filedNames_dotted: "nm \<in> set (filedNames w bs) \<Longrightarrow> length (split CHR ''.'' nm) > 1"
  using fullName_dotted by (auto simp: filedNames_fold set_fold_insertKey filedAs_def)

text \<open>The interface text is made exactly when every schema in the list is safe.\<close>

lemma generateInterface_cases:
  "(safe (inputSchema t) 0 \<longrightarrow> (\<exists>doc. generateInterface t = Inr doc))
   \<and> (\<not> safe (inputSchema t) 0 \<longrightarrow> (\<exists>m. generateInterface t = Inl (TypeError m)))"
  using toType_cases [of "inputSchema t" 0]
  by (auto simp: generateInterface_def Let_def)

lemma generateInterfaces_cases:
  "((\<forall>t \<in> set ts. safe (inputSchema t) 0) \<longrightarrow> (\<exists>doc. generateInterfaces ts = Inr doc))
   \<and> (\<not> (\<forall>t \<in> set ts. safe (inputSchema t) 0)
        \<longrightarrow> (\<exists>m. generateInterfaces ts = Inl (TypeError m)))"
  using mapE_cases [of ts "\<lambda>t. safe (inputSchema t) 0" generateInterface]
    generateInterface_cases
  by (auto simp: generateInterfaces_def split: sum.splits)

text \<open>
  Claim C2, as amended. Let the configured backends be given (in the order in which
  their listings settle), some of which may fail to connect, fail their tool-list
  request or fail to close, and let no registered tool be filed under a namespace that
  is the name of a member of \<open>Object.prototype\<close>. Then a failure of a backend never
  leaves the aggregation. The aggregation completes exactly when the assignments into
  the dispatch map go through (none is blocked) and the input schema of every
  registered tool is safe for the signature synthesizer; otherwise a \<open>TypeError\<close> of
  one of these two steps escapes. In either case the registry gains exactly the tools
  of the succeeding backends that pass the allow/deny filter, and nothing from a
  backend that fails.
\<close>

theorem aggregation_partial_failure:
  assumes "servers input = Some bs"
    and "\<forall>nm \<in> set (filedNames w bs). fst (dispatchKey nm) \<notin> set objectPrototypeKeys"
  shows "(fst (getAllServerTools w input st tr) = Inr () \<longleftrightarrow>
            writesOk [] (map dispatchKey (filedNames w bs))
            \<and> (\<forall>e \<in> set (registered w bs). safe (inputSchema (tool e)) 0))
       \<and> (fst (getAllServerTools w input st tr) = Inr ()
            \<or> (\<exists>m. fst (getAllServerTools w input st tr) = Inl (TypeError m)))
       \<and> mset (toolRegistry (fst (snd (getAllServerTools w input st tr)))) =
           mset (toolRegistry st) + mset (registered w bs)"
proof -
  obtain st1 rawTools toolList tr1 where
    f: "fold (queryBackend w) bs ((st, [], []), tr) = ((st1, rawTools, toolList), tr1)"
    by (metis prod.collapse)
  from fold_queryBackend [of w bs "((st, [], []), tr)"] f
  have reg: "toolRegistry st1 = toolRegistry st @ registered w bs"
    and tl: "toolList = map listed (registered w bs)"
    and keys: "map fst rawTools = filedNames w bs"
    by (simp_all add: filedNames_fold)
  have safe_list: "(\<forall>t \<in> set toolList. safe (inputSchema t) 0) \<longleftrightarrow>
      (\<forall>e \<in> set (registered w bs). safe (inputSchema (tool e)) 0)"
    by (simp add: tl listed_def)
  have ok: "\<forall>nm \<in> set (map fst rawTools). length (split CHR ''.'' nm) > 1
           \<and> fst (dispatchKey nm) \<notin> set objectPrototypeKeys"
    using assms(2) filedNames_dotted [of _ w bs] by (auto simp: keys)
  have wk: "map (\<lambda>entry. dispatchKey (fst entry)) rawTools = map dispatchKey (filedNames w bs)"
  proof -
    have "map (\<lambda>entry. dispatchKey (fst entry)) rawTools = map dispatchKey (map fst rawTools)"
      by simp
    with keys show ?thesis by (simp only:)
  qed
  show ?thesis
  proof (cases "writesOk [] (map dispatchKey (filedNames w bs))")
    case False
    with prepareToolsFrom_tracked [OF tracks_empty ok] wk obtain m where
      "prepareTools rawTools = Some (Inl (TypeError m))"
      by (auto simp: prepareTools_def)
    with assms(1) f reg False show ?thesis
      by (simp add: getAllServerTools_def)
  next
    case True
    with prepareToolsFrom_tracked [OF tracks_empty ok] wk obtain out where
      out: "prepareTools rawTools = Some (Inr out)"
      by (auto simp: prepareTools_def)
    show ?thesis
    proof (cases "\<forall>t \<in> set toolList. safe (inputSchema t) 0")
      case True
      with generateInterfaces_cases [of toolList] obtain doc where
        "generateInterfaces toolList = Inr doc" by blast
      with assms(1) f reg out True safe_list \<open>writesOk [] (map dispatchKey (filedNames w bs))\<close>
      show ?thesis by (simp add: getAllServerTools_def Let_def)
    next
      case False
      with generateInterfaces_cases [of toolList] obtain m where
        "generateInterfaces toolList = Inl (TypeError m)" by blast
      with assms(1) f reg out False safe_list show ?thesis
        by (simp add: getAllServerTools_def Let_def)
    qed
  qed
qed

theorem aggregation_partial_failure_witness:
  "\<not> succeeds exampleWorld (stdioServer ''y-server'')
   \<and> fst (getAllServerTools exampleWorld twoBackends emptyState []) = Inr ()
   \<and> map (\<lambda>e. (serverName e, name (tool e)))
        (toolRegistry (fst (snd (getAllServerTools exampleWorld twoBackends emptyState []))))
      = [(''X'', ''echo''), (''X'', ''plain'')]
   \<and> (\<exists>m. fst (getAllServerTools shadowWorld twoBackends emptyState []) = Inl (TypeError m))
   \<and> map (\<lambda>e. (serverName e, name (tool e)))
        (toolRegistry (fst (snd (getAllServerTools shadowWorld twoBackends emptyState []))))
      = [(''X'', ''__proto__''), (''X'', ''length'')]"
proof -
  let ?bs = "[(''X'', httpServer ''http://x.example/mcp''), (''Y'', stdioServer ''y-server'')]"
  have bs: "servers twoBackends = Some ?bs"
    by (simp add: twoBackends_def)
  have ns: "\<forall>nm \<in> set (filedNames exampleWorld ?bs).
              fst (dispatchKey nm) \<notin> set objectPrototypeKeys"
    by code_simp
  have wr: "writesOk [] (map dispatchKey (filedNames exampleWorld ?bs))"
    by code_simp
  have sf: "\<forall>e \<in> set (registered exampleWorld ?bs). safe (inputSchema (tool e)) 0"
    by code_simp
  have ns': "\<forall>nm \<in> set (filedNames shadowWorld ?bs).
              fst (dispatchKey nm) \<notin> set objectPrototypeKeys"
    by code_simp
  have wr': "\<not> writesOk [] (map dispatchKey (filedNames shadowWorld ?bs))"
    by code_simp
  have y: "\<not> succeeds exampleWorld (stdioServer ''y-server'')"
    by code_simp
  have run: "map (\<lambda>e. (serverName e, name (tool e)))
        (toolRegistry (fst (snd (getAllServerTools exampleWorld twoBackends emptyState []))))
      = [(''X'', ''echo''), (''X'', ''plain'')]"
    by code_simp
  have run': "map (\<lambda>e. (serverName e, name (tool e)))
        (toolRegistry (fst (snd (getAllServerTools shadowWorld twoBackends emptyState []))))
      = [(''X'', ''__proto__''), (''X'', ''length'')]"
    by code_simp
  from aggregation_partial_failure [OF bs ns, of emptyState "[]"] wr sf
  have ok: "fst (getAllServerTools exampleWorld twoBackends emptyState []) = Inr ()"
    by blast
  from aggregation_partial_failure [OF bs ns', of emptyState "[]"] wr'
  have "\<exists>m. fst (getAllServerTools shadowWorld twoBackends emptyState []) = Inl (TypeError m)"
    by blast
  with ok y run run' show ?thesis by blast
qed

text \<open>
  With backend \<open>X\<close> healthy and backend \<open>Y\<close> unreachable, aggregation does not
  complete and an exception escapes it in each of these cases: a tool of \<open>X\<close> has a
  schema whose \<open>enum\<close> is a string, or whose \<open>enum\<close> holds an object with a property
  \<open>toString\<close> (the error of the signature synthesizer, line 139); \<open>X\<close> reports the
  tools \<open>__proto__\<close> and \<open>length\<close> (the error of the assignment in \<open>prepareTools\<close>,
  line 138).
\<close>

theorem aggregation_malformed_schema_escapes:
  "succeeds sloppyWorld (httpServer ''http://x.example/mcp'')
   \<and> \<not> succeeds sloppyWorld (stdioServer ''y-server'')
   \<and> fst (getAllServerTools sloppyWorld twoBackends emptyState []) =
       Inl (TypeError ''s.enum.map is not a function'')
   \<and> succeeds opaqueWorld (httpServer ''http://x.example/mcp'')
   \<and> fst (getAllServerTools opaqueWorld twoBackends emptyState []) =
       Inl (TypeError ''Cannot convert object to primitive value'')
   \<and> succeeds shadowWorld (httpServer ''http://x.example/mcp'')
   \<and> fst (getAllServerTools shadowWorld twoBackends emptyState []) =
       Inl (TypeError ''Cannot assign to property length'')"
  by code_simp

section \<open>Properties of initialization\<close>


text \<open>
  An empty configuration file is replaced by \<open>{}\<close>, which has no \<open>servers\<close> property:
  \<open>Object.entries\<close> raises.
\<close>

lemma init_empty_file_raises:
  assumes "readFile w (configPath w) = Inr []"
    and "JSON_parse w ''{}'' = Inr \<lparr>servers = None\<rparr>"
  shows "init w st tr = (Inl (TypeError ''Cannot convert undefined or null to object''), st, tr)"
  using assms by (simp add: init_def getAllServerTools_def)




end
